theory Spec2Isabelle
  imports Complex_Main
begin

section \<open>Numbers and vectors\<close>

text \<open>
  The program is TypeScript on top of A-Frame and three.js. Every JavaScript number is
  modelled as a \<^typ>\<open>real\<close>: arithmetic is exact, and IEEE rounding, infinities and NaN
  are outside the model. All divisions of the source that are modelled have a divisor the
  source itself guards against zero, except \<open>radius / baseRadius\<close>, where the model has
  HOL's \<open>x / 0 = 0\<close>; snowballs are only ever created with \<open>baseRadius = 0.03\<close>.

  \<open>THREE.Vector3\<close> is a mutable object in the source. The methods used by the program
  are modelled as functions returning the new value of the receiver; where the source
  keeps using a vector after a method has changed it in place, the model uses the changed
  value.
\<close>

datatype Vector3 = Vector3 (vec_x: real) (vec_y: real) (vec_z: real)

definition v_add :: "Vector3 \<Rightarrow> Vector3 \<Rightarrow> Vector3" where
  "v_add a b = Vector3 (vec_x a + vec_x b) (vec_y a + vec_y b) (vec_z a + vec_z b)"

definition v_sub :: "Vector3 \<Rightarrow> Vector3 \<Rightarrow> Vector3" where
  "v_sub a b = Vector3 (vec_x a - vec_x b) (vec_y a - vec_y b) (vec_z a - vec_z b)"

definition multiplyScalar :: "Vector3 \<Rightarrow> real \<Rightarrow> Vector3" where
  "multiplyScalar a s = Vector3 (vec_x a * s) (vec_y a * s) (vec_z a * s)"

definition addScaledVector :: "Vector3 \<Rightarrow> Vector3 \<Rightarrow> real \<Rightarrow> Vector3" where
  "addScaledVector a v s =
     Vector3 (vec_x a + vec_x v * s) (vec_y a + vec_y v * s) (vec_z a + vec_z v * s)"

definition dot :: "Vector3 \<Rightarrow> Vector3 \<Rightarrow> real" where
  "dot a b = vec_x a * vec_x b + vec_y a * vec_y b + vec_z a * vec_z b"

definition v_length :: "Vector3 \<Rightarrow> real" where
  "v_length a = sqrt (vec_x a * vec_x a + vec_y a * vec_y a + vec_z a * vec_z a)"

definition distanceTo :: "Vector3 \<Rightarrow> Vector3 \<Rightarrow> real" where
  "distanceTo a b = v_length (v_sub a b)"

definition lerp :: "Vector3 \<Rightarrow> Vector3 \<Rightarrow> real \<Rightarrow> Vector3" where
  "lerp a v alpha =
     Vector3 (vec_x a + (vec_x v - vec_x a) * alpha)
             (vec_y a + (vec_y v - vec_y a) * alpha)
             (vec_z a + (vec_z v - vec_z a) * alpha)"

text \<open>\<open>normalize()\<close> is \<open>divideScalar(length() || 1)\<close>, and \<open>divideScalar(s)\<close> is
  \<open>multiplyScalar(1 / s)\<close>; \<open>setLength(l)\<close> is \<open>normalize().multiplyScalar(l)\<close>.\<close>

definition v_normalize :: "Vector3 \<Rightarrow> Vector3" where
  "v_normalize a =
     multiplyScalar a (1 / (if v_length a = 0 then 1 else v_length a))"

definition setLength :: "Vector3 \<Rightarrow> real \<Rightarrow> Vector3" where
  "setLength a l = multiplyScalar (v_normalize a) l"

definition hypot :: "real \<Rightarrow> real \<Rightarrow> real" where
  "hypot a b = sqrt (a * a + b * b)"

abbreviation v_zero :: Vector3 where
  "v_zero \<equiv> Vector3 0 0 0"


section \<open>The scene: the snow system and the snowball entities\<close>

text \<open>
  Entities are JavaScript objects with identity; the hands and the snow system hold
  references to them. An entity reference is an address, and the scene has a store from
  addresses to the state of the snowball entity at that address: the \<open>object3D\<close> position
  and scale, the node it is attached under, and the fields of its \<open>snowball\<close> component
  (A-Frame keeps the component object on an entity that is detached from the scene, so a
  reference held by a hand still reaches these fields after the entity was removed).
  \<open>system.snowballs\<close> is a JavaScript \<open>Set\<close>, iterated in insertion order: a list of
  references without duplicates.
\<close>

type_synonym entity = nat

datatype node = SceneNode | HandNode string

record snowball =
  position :: Vector3
  scale :: real
  parent :: node
  baseRadius :: real
  radius :: real
  velocity :: Vector3

record snow_system =
  groundHeight :: real
  snowballs :: "entity list"
  arActive :: bool
  lastSpawnTime :: real

record scene =
  snow :: snow_system
  entities :: "entity \<Rightarrow> snowball"
  next_entity :: entity

definition system_init :: snow_system where
  "system_init = \<lparr>groundHeight = 0, snowballs = [], arActive = False, lastSpawnTime = 0\<rparr>"

definition registerSnowball :: "entity \<Rightarrow> snow_system \<Rightarrow> snow_system" where
  "registerSnowball el sys =
     (if el \<in> set (snowballs sys) then sys else sys\<lparr>snowballs := snowballs sys @ [el]\<rparr>)"

definition unregisterSnowball :: "entity \<Rightarrow> snow_system \<Rightarrow> snow_system" where
  "unregisterSnowball el sys = sys\<lparr>snowballs := removeAll el (snowballs sys)\<rparr>"

definition setGroundHeight :: "real \<Rightarrow> snow_system \<Rightarrow> snow_system" where
  "setGroundHeight height sys = sys\<lparr>groundHeight := height\<rparr>"

definition setArMode :: "bool \<Rightarrow> snow_system \<Rightarrow> snow_system" where
  "setArMode enabled sys = setGroundHeight 0 (sys\<lparr>arActive := enabled\<rparr>)"


section \<open>The snowball component\<close>

text \<open>\<open>init\<close>: the component of a new entity at \<open>pos\<close> with schema value \<open>data_radius\<close>.\<close>

definition snowball_init :: "Vector3 \<Rightarrow> real \<Rightarrow> snowball" where
  "snowball_init pos data_radius =
     \<lparr>position = pos, scale = 1, parent = SceneNode,
      baseRadius = data_radius, radius = data_radius, velocity = v_zero\<rparr>"

definition applyImpulse :: "Vector3 \<Rightarrow> snowball \<Rightarrow> snowball" where
  "applyImpulse impulse s = s\<lparr>velocity := v_add (velocity s) impulse\<rparr>"

definition growBy :: "real \<Rightarrow> snowball \<Rightarrow> snowball" where
  "growBy distance s =
     (if distance \<le> 0 then s
      else let growthScale = 0.05;
               r = radius s + distance * growthScale
           in s\<lparr>radius := r, scale := r / baseRadius s\<rparr>)"

text \<open>
  \<open>tick\<close>, first part: gravity, integration of the position, ground clamp with friction.
\<close>

definition tick_integrate :: "real \<Rightarrow> real \<Rightarrow> snowball \<Rightarrow> snowball" where
  "tick_integrate deltaSeconds ground s =
     (let v1 = Vector3 (vec_x (velocity s)) (vec_y (velocity s) + (- 9.8) * deltaSeconds)
                       (vec_z (velocity s));
          p1 = addScaledVector (position s) v1 deltaSeconds;
          floorY = ground + radius s
      in if vec_y p1 < floorY then
           let p2 = Vector3 (vec_x p1) floorY (vec_z p1);
               vy = (if vec_y v1 < 0 then 0 else vec_y v1);
               groundFriction = max 0 (1 - 3.0 * deltaSeconds)
           in s\<lparr>position := p2,
                 velocity := Vector3 (vec_x v1 * groundFriction) vy (vec_z v1 * groundFriction)\<rparr>
         else s\<lparr>position := p1, velocity := v1\<rparr>)"

text \<open>
  \<open>tick\<close>, the body of the inner loop for one \<open>other\<close> that is not the entity itself.
  In the source \<open>normal.multiplyScalar(minDistance)\<close> changes \<open>normal\<close> in place (three.js
  vectors are mutable and \<open>multiplyScalar\<close> returns its receiver), so every later use of
  \<open>normal\<close> in the iteration sees the scaled vector: \<open>normal\<close> below is that vector.
\<close>

definition tick_resolve :: "real \<Rightarrow> snowball \<Rightarrow> snowball \<Rightarrow> snowball" where
  "tick_resolve deltaSeconds other s =
     (let otherRadius = radius other;
          delta = v_sub (position s) (position other);
          distance = v_length delta;
          minDistance = radius s + otherRadius
      in if distance > 0 \<and> distance < minDistance then
           let horizontalDelta = Vector3 (vec_x delta) 0 (vec_z delta);
               horizontalDistance = v_length horizontalDelta;
               unit = (if vec_y (position s) \<ge> vec_y (position other)
                          \<and> horizontalDistance < minDistance * 0.6
                       then Vector3 0 1 0
                       else multiplyScalar delta (1 / distance));
               normal = multiplyScalar unit minDistance;
               p = v_add (position other) normal;
               separation = dot (velocity s) normal;
               v1 = (if separation < 0 then addScaledVector (velocity s) normal (- separation)
                     else velocity s);
               tangential = v_sub v1 (multiplyScalar normal (dot v1 normal));
               friction = max 0 (1 - 20.0 * deltaSeconds);
               v2 = v_sub v1 (multiplyScalar tangential (1 - friction))
           in s\<lparr>position := p, velocity := v2\<rparr>
         else s)"

text \<open>One pass of the inner loop over \<open>snowballs\<close>; \<open>el\<close> is the ticking entity.\<close>

fun tick_pass :: "real \<Rightarrow> (entity \<Rightarrow> snowball) \<Rightarrow> entity \<Rightarrow> entity list \<Rightarrow> snowball \<Rightarrow> snowball" where
  "tick_pass deltaSeconds ents el [] s = s"
| "tick_pass deltaSeconds ents el (other # rest) s =
     tick_pass deltaSeconds ents el rest
       (if other = el then s else tick_resolve deltaSeconds (ents other) s)"

definition snowball_tick :: "real \<Rightarrow> entity \<Rightarrow> scene \<Rightarrow> scene" where
  "snowball_tick timeDelta el sc =
     (let deltaSeconds = timeDelta / 1000
      in if deltaSeconds \<le> 0 then sc
         else let s0 = tick_integrate deltaSeconds (groundHeight (snow sc)) (entities sc el);
                  s1 = tick_pass deltaSeconds (entities sc) el (snowballs (snow sc)) s0;
                  s2 = tick_pass deltaSeconds (entities sc) el (snowballs (snow sc)) s1
              in sc\<lparr>entities := (entities sc)(el := s2)\<rparr>)"


text \<open>Two spheres overlap in the sense of the guard of the inner loop.\<close>

definition overlapping :: "snowball \<Rightarrow> snowball \<Rightarrow> bool" where
  "overlapping s other \<longleftrightarrow>
     0 < distanceTo (position s) (position other) \<and>
     distanceTo (position s) (position other) < radius s + radius other"

text \<open>
  The unit normal of an iteration of the inner loop, as \<open>normal\<close> is before
  \<open>multiplyScalar(minDistance)\<close> scales it: straight up when the body is not below the
  other one and is horizontally close to it, from centre to centre otherwise.
\<close>

definition separating_normal :: "snowball \<Rightarrow> snowball \<Rightarrow> Vector3" where
  "separating_normal s other =
     (let delta = v_sub (position s) (position other);
          distance = v_length delta;
          minDistance = radius s + radius other;
          horizontalDistance = v_length (Vector3 (vec_x delta) 0 (vec_z delta))
      in if vec_y (position s) \<ge> vec_y (position other)
            \<and> horizontalDistance < minDistance * 0.6
         then Vector3 0 1 0
         else multiplyScalar delta (1 / distance))"

text \<open>A snowball as \<open>createSnowballEntity\<close> makes it, at a position and with a velocity.\<close>

definition ball :: "Vector3 \<Rightarrow> Vector3 \<Rightarrow> snowball" where
  "ball p v = (snowball_init p 0.03)\<lparr>velocity := v\<rparr>"


section \<open>The snowfall component\<close>

text \<open>
  The component keeps the particles in parallel arrays (\<open>positions\<close> with three slots per
  particle, \<open>velocities\<close>, \<open>phases\<close>, \<open>scales\<close>), all sized at init; the model keeps one
  record per particle, in a list. \<open>Math.random()\<close> is a source of numbers that the tick
  consumes in order: \<open>rnd k\<close> is the \<open>k\<close>-th result.
\<close>

record snowfall_data =
  enabled :: bool
  area :: real
  height :: real
  fallSpeed :: real
  windX :: real
  windZ :: real

record particle =
  pos_x :: real
  pos_y :: real
  pos_z :: real
  fall_velocity :: real
  phase :: real
  particle_scale :: real

text \<open>The two wrap tests of the loop body, for one horizontal coordinate.\<close>

definition wrap :: "real \<Rightarrow> real \<Rightarrow> real" where
  "wrap halfArea c = (if c > halfArea then - halfArea else if c < - halfArea then halfArea else c)"

text \<open>The position update of the loop body, before the wrap tests.\<close>

definition particle_advance :: "real \<Rightarrow> real \<Rightarrow> snowfall_data \<Rightarrow> particle \<Rightarrow> particle" where
  "particle_advance time deltaSeconds d p =
     (let swayAmp = 0.12;
          swaySpeed = 0.0012;
          swayX = sin (time * swaySpeed + phase p) * swayAmp;
          swayZ = cos (time * swaySpeed * 1.3 + phase p) * swayAmp
      in p\<lparr>pos_x := pos_x p + windX d * deltaSeconds + swayX * deltaSeconds,
            pos_y := pos_y p - fall_velocity p * deltaSeconds,
            pos_z := pos_z p + windZ d * deltaSeconds + swayZ * deltaSeconds\<rparr>)"

definition particle_wrap :: "real \<Rightarrow> particle \<Rightarrow> particle" where
  "particle_wrap halfArea p =
     p\<lparr>pos_x := wrap halfArea (pos_x p), pos_z := wrap halfArea (pos_z p)\<rparr>"

text \<open>The respawn of a particle below the ground; it takes six random numbers.\<close>

definition particle_recycle ::
  "snowfall_data \<Rightarrow> real \<Rightarrow> real \<Rightarrow> real \<Rightarrow> (nat \<Rightarrow> real) \<Rightarrow> nat \<Rightarrow> particle" where
  "particle_recycle d area' height' groundY rnd k =
     \<lparr>pos_x = (rnd k - 0.5) * area',
      pos_y = groundY + height' + rnd (k + 1) * height' * 0.4,
      pos_z = (rnd (k + 2) - 0.5) * area',
      fall_velocity = fallSpeed d * (0.6 + rnd (k + 3) * 0.6),
      phase = rnd (k + 4) * pi * 2,
      particle_scale = 0.6 + rnd (k + 5) * 0.8\<rparr>"

text \<open>One iteration of the loop: the particle after it, and the random numbers used.\<close>

definition particle_tick ::
  "real \<Rightarrow> real \<Rightarrow> snowfall_data \<Rightarrow> real \<Rightarrow> (nat \<Rightarrow> real) \<Rightarrow> nat \<Rightarrow> particle \<Rightarrow> particle \<times> nat" where
  "particle_tick time deltaSeconds d groundY rnd k p =
     (let area' = max 1 (area d);
          height' = max 1 (height d);
          halfArea = area' * 0.5;
          p1 = particle_wrap halfArea (particle_advance time deltaSeconds d p)
      in if pos_y p1 < groundY - 0.2
         then (particle_recycle d area' height' groundY rnd k, k + 6)
         else (p1, k))"

fun particles_tick ::
  "real \<Rightarrow> real \<Rightarrow> snowfall_data \<Rightarrow> real \<Rightarrow> (nat \<Rightarrow> real) \<Rightarrow> nat \<Rightarrow> particle list \<Rightarrow> particle list" where
  "particles_tick time deltaSeconds d groundY rnd k [] = []"
| "particles_tick time deltaSeconds d groundY rnd k (p # ps) =
     (case particle_tick time deltaSeconds d groundY rnd k p of
        (p', k') \<Rightarrow> p' # particles_tick time deltaSeconds d groundY rnd k' ps)"

text \<open>\<open>tick\<close> of the component; \<open>mesh\<close> says that \<open>points\<close> and \<open>geometry\<close> are set.\<close>

definition snowfall_tick ::
  "real \<Rightarrow> real \<Rightarrow> snowfall_data \<Rightarrow> bool \<Rightarrow> real \<Rightarrow> (nat \<Rightarrow> real) \<Rightarrow> particle list \<Rightarrow> particle list" where
  "snowfall_tick time timeDelta d mesh groundY rnd ps =
     (if \<not> enabled d \<or> \<not> mesh then ps
      else let deltaSeconds = timeDelta / 1000
           in if deltaSeconds \<le> 0 then ps
              else particles_tick time deltaSeconds d groundY rnd 0 ps)"


section \<open>Creating and removing snowball entities\<close>

text \<open>
  What the program asks of its collaborators is logged, in order: haptic pulses, entities
  appended to and removed from the scene, rotations of an entity's \<open>object3D\<close>.
\<close>

datatype effect =
    Pulse real real
  | AppendSnowball entity Vector3
  | RemoveEntity entity
  | RotateOnWorldAxis entity Vector3 real

text \<open>
  \<open>createSnowballEntity\<close> makes a new entity with the default schema (radius 0.03) at the
  position and appends it to the scene; the init of its \<open>snowball\<close> component registers
  it with the system. \<open>entity.remove()\<close> detaches the entity; the \<open>remove\<close> handler of the
  component unregisters it.
\<close>

definition createSnowballEntity :: "Vector3 \<Rightarrow> scene \<Rightarrow> scene" where
  "createSnowballEntity pos sc =
     (let el = next_entity sc
      in sc\<lparr>entities := (entities sc)(el := snowball_init pos 0.03),
            snow := registerSnowball el (snow sc),
            next_entity := Suc el\<rparr>)"

definition entity_remove :: "entity \<Rightarrow> scene \<Rightarrow> scene" where
  "entity_remove el sc = sc\<lparr>snow := unregisterSnowball el (snow sc)\<rparr>"

definition scene_init :: scene where
  "scene_init = \<lparr>snow = system_init, entities = (\<lambda>_. snowball_init v_zero 0.03), next_entity = 0\<rparr>"


section \<open>The rolling-hand component\<close>

text \<open>
  The state of one hand. The debug entities (\<open>handDebug\<close>, \<open>contactDebug\<close>,
  \<open>snowballDebug\<close>, \<open>debugSnowball\<close>) only draw wireframes and are left out, as is
  \<open>otherHandEl\<close>, which is set in init and never read.
\<close>

record hand_data =
  handRadius :: real
  releasePadding :: real
  pushStrength :: real
  sinkDepth :: real
  rollThreshold :: real
  crushThreshold :: real
  fingertipOffset :: Vector3
  debug :: bool

record rolling_hand =
  rollingSnowball :: "entity option"
  lastHandPosition :: "Vector3 option"
  grabbedSnowball :: "entity option"
  prevHandPosition :: "Vector3 option"
  smoothedHandPoint :: "Vector3 option"
  handVelocity :: "Vector3 option"
  handSign :: real
  lastHapticTime :: real
  el_id :: string
  data :: hand_data

text \<open>
  What a handler reads from the scene graph and the clock when it runs: the world position
  of the hand (\<open>getWorldPosition\<close>), the action of the hand's world quaternion on a vector
  (\<open>applyQuaternion\<close>), the maps between the local coordinates of a node and world
  coordinates (used by \<open>getWorldPosition\<close> of a snowball and by \<open>attach\<close>), and the two
  readings of \<open>performance.now()\<close> that the tick makes.
\<close>

record hand_env =
  handPosition :: Vector3
  handQuaternion :: "Vector3 \<Rightarrow> Vector3"
  to_world :: "node \<Rightarrow> Vector3 \<Rightarrow> Vector3"
  to_local :: "node \<Rightarrow> Vector3 \<Rightarrow> Vector3"
  now :: real
  now_haptic :: real

definition default_data :: hand_data where
  "default_data =
     \<lparr>handRadius = 0.03, releasePadding = 0.05, pushStrength = 3.0, sinkDepth = 0.02,
      rollThreshold = 0.008, crushThreshold = 0.03, fingertipOffset = Vector3 0 (- 0.05) 0,
      debug = False\<rparr>"

definition hand_init :: "string \<Rightarrow> hand_data \<Rightarrow> rolling_hand" where
  "hand_init ident d =
     \<lparr>rollingSnowball = None, lastHandPosition = None, grabbedSnowball = None,
      prevHandPosition = None, smoothedHandPoint = None, handVelocity = None,
      handSign = (if ident = ''leftHand'' then 1 else if ident = ''rightHand'' then - 1 else 1),
      lastHapticTime = 0, el_id = ident, data = d\<rparr>"

definition getHandPoint :: "rolling_hand \<Rightarrow> hand_env \<Rightarrow> Vector3" where
  "getHandPoint h env =
     v_add (handPosition env)
       (handQuaternion env
          (Vector3 (vec_x (fingertipOffset (data h)) * handSign h)
                   (vec_y (fingertipOffset (data h)))
                   (vec_z (fingertipOffset (data h)))))"

definition getContactDistance :: "hand_data \<Rightarrow> real \<Rightarrow> real" where
  "getContactDistance d r = max 0.005 (handRadius d + r - sinkDepth d)"

text \<open>
  The searches start from \<open>Number.POSITIVE_INFINITY\<close>, the one non-real number the
  program compares with.
\<close>

datatype js_distance = PositiveInfinity | Finite real

fun lt_distance :: "real \<Rightarrow> js_distance \<Rightarrow> bool" where
  "lt_distance a PositiveInfinity = True"
| "lt_distance a (Finite b) = (a < b)"

fun distance_le :: "js_distance \<Rightarrow> real \<Rightarrow> bool" where
  "distance_le PositiveInfinity b = False"
| "distance_le (Finite a) b = (a \<le> b)"

record nearest_info =
  nearest :: "entity option"
  nearestDistance :: js_distance
  nearestRadius :: real

fun findNearest_loop ::
  "(entity \<Rightarrow> snowball) \<Rightarrow> Vector3 \<Rightarrow> entity list \<Rightarrow> nearest_info \<Rightarrow> nearest_info" where
  "findNearest_loop ents handPoint [] acc = acc"
| "findNearest_loop ents handPoint (sb # rest) acc =
     findNearest_loop ents handPoint rest
       (let distance = distanceTo (position (ents sb)) handPoint
        in if lt_distance distance (nearestDistance acc)
           then \<lparr>nearest = Some sb, nearestDistance = Finite distance,
                 nearestRadius = radius (ents sb)\<rparr>
           else acc)"

definition findNearestSnowball ::
  "(entity \<Rightarrow> snowball) \<Rightarrow> Vector3 \<Rightarrow> entity list \<Rightarrow> nearest_info" where
  "findNearestSnowball ents handPoint sbs =
     findNearest_loop ents handPoint sbs
       \<lparr>nearest = None, nearestDistance = PositiveInfinity, nearestRadius = 0.03\<rparr>"

definition sizeFactor :: "snowball \<Rightarrow> real" where
  "sizeFactor s = max 1 (radius s / baseRadius s)"

text \<open>
  \<open>onGrabStart\<close>. \<open>attach\<close> moves the snowball under the hand and keeps its world
  transform, so its \<open>position\<close> becomes the hand-local image of its world position.
\<close>

definition onGrabStart ::
  "hand_env \<Rightarrow> scene option \<Rightarrow> rolling_hand \<Rightarrow> rolling_hand \<times> scene option \<times> effect list" where
  "onGrabStart env scn h =
     (case grabbedSnowball h of
        Some g \<Rightarrow> (h, scn, [])
      | None \<Rightarrow>
         (case scn of
            None \<Rightarrow> (h, scn, [])
          | Some sc \<Rightarrow>
             (let handPoint = getHandPoint h env;
                  info = findNearestSnowball (entities sc) handPoint (snowballs (snow sc))
              in case nearest info of
                   None \<Rightarrow> (h, scn, [])
                 | Some grabbed \<Rightarrow>
                    (let contactDistance = getContactDistance (data h) (nearestRadius info)
                     in if distance_le (nearestDistance info) (contactDistance + 0.01) then
                          let s = entities sc grabbed;
                              s' = s\<lparr>position :=
                                        to_local env (HandNode (el_id h))
                                          (to_world env (parent s) (position s)),
                                     parent := HandNode (el_id h),
                                     velocity := v_zero\<rparr>;
                              intensity = min 1 (0.6 * min 2.0 (sizeFactor s'))
                          in (h\<lparr>grabbedSnowball := Some grabbed, rollingSnowball := None,
                                 lastHandPosition := None\<rparr>,
                              Some (sc\<lparr>entities := (entities sc)(grabbed := s')\<rparr>),
                              [Pulse intensity 40])
                        else (h, scn, [])))))"

text \<open>The velocity given to a released snowball, from the hand's estimated velocity.\<close>

definition throwVelocity :: "Vector3 option \<Rightarrow> Vector3" where
  "throwVelocity hv =
     (let baseVelocity = (case hv of Some v \<Rightarrow> v | None \<Rightarrow> v_zero);
          throw = multiplyScalar baseVelocity 0.6;
          throwSpeed = v_length throw
      in if throwSpeed < 0.2 then v_zero
         else if throwSpeed > 3.0 then setLength throw 3.0
         else throw)"

text \<open>The search of \<open>onGrabEnd\<close> for the snowball that is horizontally nearest.\<close>

record target_info =
  target :: "entity option"
  targetRadius :: real
  targetDistance :: js_distance

fun findTarget_loop ::
  "(entity \<Rightarrow> snowball) \<Rightarrow> Vector3 \<Rightarrow> entity list \<Rightarrow> target_info \<Rightarrow> target_info" where
  "findTarget_loop ents worldPosition [] acc = acc"
| "findTarget_loop ents worldPosition (other # rest) acc =
     findTarget_loop ents worldPosition rest
       (let otherPos = position (ents other);
            horizontalDistance = hypot (vec_x worldPosition - vec_x otherPos)
                                       (vec_z worldPosition - vec_z otherPos);
            otherRadius = radius (ents other)
        in if lt_distance horizontalDistance (targetDistance acc)
           then \<lparr>target = Some other, targetRadius = otherRadius,
                 targetDistance = Finite horizontalDistance\<rparr>
           else acc)"

text \<open>
  \<open>onGrabEnd\<close>, second half: where the released snowball \<open>s1\<close> comes to rest. It is
  put on top of the horizontally nearest other snowball when that one is within 1.2 of
  its radius, and lifted to the ground otherwise.
\<close>

definition release_rest :: "scene \<Rightarrow> entity \<Rightarrow> Vector3 \<Rightarrow> snowball \<Rightarrow> snowball" where
  "release_rest sc sb worldPosition s1 =
     (let ents1 = (entities sc)(sb := s1);
          others = filter (\<lambda>other. other \<noteq> sb) (snowballs (snow sc));
          t = findTarget_loop ents1 worldPosition others
                \<lparr>target = None, targetRadius = 0, targetDistance = PositiveInfinity\<rparr>;
          stack = (case target t of
                     None \<Rightarrow> None
                   | Some tg \<Rightarrow>
                       if distance_le (targetDistance t) (targetRadius t * 1.2)
                       then Some tg else None)
      in case stack of
           Some tg \<Rightarrow>
             (let targetPos = position (ents1 tg)
              in s1\<lparr>position :=
                       Vector3 (vec_x targetPos)
                               (vec_y targetPos + targetRadius t + radius s1)
                               (vec_z targetPos)\<rparr>)
         | None \<Rightarrow>
             (let groundY = groundHeight (snow sc) + radius s1
              in if vec_y (position s1) < groundY
                 then s1\<lparr>position :=
                           Vector3 (vec_x (position s1)) groundY (vec_z (position s1))\<rparr>
                 else s1))"

definition onGrabEnd ::
  "hand_env \<Rightarrow> scene option \<Rightarrow> rolling_hand \<Rightarrow> rolling_hand \<times> scene option \<times> effect list" where
  "onGrabEnd env scn h =
     (case grabbedSnowball h of
        None \<Rightarrow> (h, scn, [])
      | Some sb \<Rightarrow>
         (case scn of
            None \<Rightarrow> (h, scn, [])
          | Some sc \<Rightarrow>
             (let s = entities sc sb;
                  worldPosition = to_world env (parent s) (position s);
                  s1 = s\<lparr>position := worldPosition, parent := SceneNode,
                         velocity := throwVelocity (handVelocity h)\<rparr>;
                  s2 = release_rest sc sb worldPosition s1;
                  intensity = min 1 (0.3 * min 2.0 (sizeFactor s2))
              in (h\<lparr>grabbedSnowball := None\<rparr>,
                  Some (sc\<lparr>entities := (entities sc)(sb := s2)\<rparr>),
                  [Pulse intensity 30]))))"


text \<open>
  \<open>tick\<close> of the hand, in the phases of its body. First the smoothed hand point:
  \<open>smoothedHandPoint\<close> starts as a copy of the raw point and is then moved towards the
  raw point in place, and \<open>handPoint\<close> is that same object.
\<close>

definition tick_dt :: "real \<Rightarrow> real" where
  "tick_dt timeDelta = max 0.001 (timeDelta / 1000)"

definition tick_handPoint :: "real \<Rightarrow> hand_env \<Rightarrow> rolling_hand \<Rightarrow> Vector3" where
  "tick_handPoint timeDelta env h =
     (let rawHandPoint = getHandPoint h env;
          smoothed = (case smoothedHandPoint h of None \<Rightarrow> rawHandPoint | Some p \<Rightarrow> p);
          smoothFactor = 1 - exp (- tick_dt timeDelta * 18)
      in lerp smoothed rawHandPoint smoothFactor)"

definition tick_rawDelta :: "Vector3 \<Rightarrow> rolling_hand \<Rightarrow> Vector3" where
  "tick_rawDelta handPoint h =
     (case prevHandPosition h of Some p \<Rightarrow> v_sub handPoint p | None \<Rightarrow> v_zero)"

text \<open>Spawn by drag.\<close>

definition tick_spawn ::
  "hand_env \<Rightarrow> Vector3 \<Rightarrow> rolling_hand \<Rightarrow> scene \<Rightarrow> scene \<times> effect list" where
  "tick_spawn env handPoint h sc =
     (let ground = groundHeight (snow sc);
          handOnGround = Vector3 (vec_x handPoint) ground (vec_z handPoint);
          rawDelta = tick_rawDelta handPoint h;
          canSpawn = (now env - lastSpawnTime (snow sc) > 350)
      in if rollingSnowball h = None \<and> grabbedSnowball h = None \<and> canSpawn then
           let nearGround = (vec_y handPoint \<le> ground + handRadius (data h) + 0.05);
               lateralSpeed = hypot (vec_x rawDelta) (vec_z rawDelta);
               movingUp = (vec_y rawDelta > 0.006)
           in if nearGround \<and> lateralSpeed > 0.005 \<and> movingUp then
                let spawnPos = Vector3 (vec_x handOnGround) (ground + 0.03) (vec_z handOnGround);
                    sc1 = createSnowballEntity spawnPos sc
                in (sc1\<lparr>snow := (snow sc1)\<lparr>lastSpawnTime := now env\<rparr>\<rparr>,
                    [AppendSnowball (next_entity sc) spawnPos, Pulse 0.4 30])
              else (sc, [])
         else (sc, []))"

text \<open>Contact acquisition; \<open>sbs\<close> is the array taken from the set before the spawn.\<close>

definition tick_acquire ::
  "Vector3 \<Rightarrow> entity list \<Rightarrow> scene \<Rightarrow> rolling_hand \<Rightarrow> rolling_hand" where
  "tick_acquire handPoint sbs sc h =
     (if rollingSnowball h = None \<and> grabbedSnowball h = None then
        let info = findNearestSnowball (entities sc) handPoint sbs
        in case nearest info of
             None \<Rightarrow> h
           | Some n \<Rightarrow>
              (let contactDistance = getContactDistance (data h) (nearestRadius info)
               in if distance_le (nearestDistance info) contactDistance
                  then h\<lparr>rollingSnowball := Some n, lastHandPosition := Some handPoint\<rparr>
                  else h)
      else h)"

text \<open>
  The rolling update while the hand is in contact: crush, or push and grow. The result
  says whether the tick returned early. \<open>handDelta.multiplyScalar(pushStrength)\<close> changes
  \<open>handDelta\<close> in place and \<open>impulse\<close> is that same object, so \<open>moveDelta\<close>, cloned from
  \<open>handDelta\<close> afterwards, is the scaled vector. The guard
  \<open>if (!rolling || !snowballComponent) return\<close> never fires: \<open>rollingSnowball\<close> is set
  here and the entity keeps its component.
\<close>

definition tick_contact ::
  "hand_env \<Rightarrow> Vector3 \<Rightarrow> entity \<Rightarrow> Vector3 \<Rightarrow> real \<Rightarrow> rolling_hand \<Rightarrow> scene \<Rightarrow>
     (rolling_hand \<times> scene \<times> effect list) \<times> bool" where
  "tick_contact env handPoint rolling lastPos distanceToHand h sc =
     (let ground = groundHeight (snow sc);
          s = entities sc rolling;
          currentPosition = position s;
          snowballRadius = radius s;
          rawDelta = v_sub handPoint lastPos;
          fromAbove = (vec_y handPoint \<ge> vec_y currentPosition + snowballRadius * 0.25);
          pressedInto = (distanceToHand \<le> snowballRadius * 0.55);
          nearTop = (vec_y handPoint - vec_y currentPosition \<le> snowballRadius * 0.55)
      in if fromAbove \<and> pressedInto \<and> nearTop then
           ((h\<lparr>rollingSnowball := None, lastHandPosition := None\<rparr>,
             entity_remove rolling sc,
             [Pulse 0.8 60, RemoveEntity rolling]), True)
         else
           let handDelta = (if fromAbove \<and> vec_y rawDelta < 0 then v_zero
                            else Vector3 (vec_x rawDelta) 0 (vec_z rawDelta));
               impulse = multiplyScalar handDelta (pushStrength (data h));
               moveDelta = impulse;
               p1 = v_add (position s) moveDelta;
               p2 = Vector3 (vec_x p1) (ground + snowballRadius) (vec_z p1);
               moveDistance = v_length moveDelta;
               rotation =
                 (if moveDistance > 0.0001 \<and> snowballRadius > 0.0001 then
                    [RotateOnWorldAxis rolling
                       (v_normalize (Vector3 (vec_z moveDelta) 0 (- vec_x moveDelta)))
                       (moveDistance / snowballRadius)]
                  else []);
               s1 = applyImpulse impulse (s\<lparr>position := p2\<rparr>);
               rolledDistance = v_length moveDelta
           in if rolledDistance \<ge> rollThreshold (data h) then
                let factor = sizeFactor s1;
                    scaledDistance = rolledDistance / factor;
                    s2 = growBy scaledDistance s1;
                    sc2 = sc\<lparr>entities := (entities sc)(rolling := s2)\<rparr>
                in if now_haptic env - lastHapticTime h > 120 then
                     ((h\<lparr>lastHapticTime := now_haptic env, lastHandPosition := Some handPoint\<rparr>,
                       sc2,
                       rotation @ [Pulse (min 1 (0.2 * min 2.5 factor)) 20]), False)
                   else ((h\<lparr>lastHandPosition := Some handPoint\<rparr>, sc2, rotation), False)
              else ((h\<lparr>lastHandPosition := Some handPoint\<rparr>,
                     sc\<lparr>entities := (entities sc)(rolling := s1)\<rparr>, rotation), False))"

definition tick_roll ::
  "hand_env \<Rightarrow> Vector3 \<Rightarrow> rolling_hand \<Rightarrow> scene \<Rightarrow>
     (rolling_hand \<times> scene \<times> effect list) \<times> bool" where
  "tick_roll env handPoint h sc =
     (case rollingSnowball h of
        None \<Rightarrow> ((h, sc, []), False)
      | Some rolling \<Rightarrow>
         if grabbedSnowball h \<noteq> None then ((h, sc, []), False)
         else
           let s = entities sc rolling;
               contactDistance = getContactDistance (data h) (radius s);
               distanceToHand = distanceTo (position s) handPoint
           in if distanceToHand > contactDistance + releasePadding (data h) then
                ((h\<lparr>rollingSnowball := None, lastHandPosition := None\<rparr>,
                  sc\<lparr>entities := (entities sc)(rolling := s\<lparr>velocity := v_zero\<rparr>)\<rparr>,
                  []), False)
              else
                (case lastHandPosition h of
                   Some lastPos \<Rightarrow>
                     if distanceToHand \<le> contactDistance
                     then tick_contact env handPoint rolling lastPos distanceToHand h sc
                     else ((h\<lparr>lastHandPosition := Some handPoint\<rparr>, sc, []), False)
                 | None \<Rightarrow> ((h\<lparr>lastHandPosition := Some handPoint\<rparr>, sc, []), False)))"

definition hand_tick ::
  "real \<Rightarrow> hand_env \<Rightarrow> scene option \<Rightarrow> rolling_hand \<Rightarrow> rolling_hand \<times> scene option \<times> effect list" where
  "hand_tick timeDelta env scn h =
     (case scn of
        None \<Rightarrow> (h, scn, [])
      | Some sc \<Rightarrow>
         (let handPoint = tick_handPoint timeDelta env h;
              dt = tick_dt timeDelta;
              h1 = h\<lparr>smoothedHandPoint := Some handPoint,
                     handVelocity :=
                       Some (case prevHandPosition h of
                               Some p \<Rightarrow> multiplyScalar (v_sub handPoint p) (1 / dt)
                             | None \<Rightarrow> v_zero)\<rparr>;
              sbs = snowballs (snow sc);
              spawned = tick_spawn env handPoint h1 sc;
              h2 = tick_acquire handPoint sbs (fst spawned) h1;
              rolled = tick_roll env handPoint h2 (fst spawned);
              h3 = fst (fst rolled);
              sc3 = fst (snd (fst rolled));
              effs = snd spawned @ snd (snd (fst rolled))
          in if snd rolled then (h3, Some sc3, effs)
             else (h3\<lparr>prevHandPosition := Some handPoint\<rparr>, Some sc3, effs)))"


section \<open>The spawn-seed component\<close>

definition spawnSeed :: "real \<Rightarrow> hand_env \<Rightarrow> scene option \<Rightarrow> scene option \<times> effect list" where
  "spawnSeed spawnOffset env scn =
     (case scn of
        None \<Rightarrow> (scn, [])
      | Some sc \<Rightarrow>
         (let spawnPosition = Vector3 (vec_x (handPosition env))
                                      (vec_y (handPosition env) + spawnOffset)
                                      (vec_z (handPosition env));
              sc1 = createSnowballEntity spawnPosition sc
          in (Some (sc1\<lparr>snow := (snow sc1)\<lparr>lastSpawnTime := now env\<rparr>\<rparr>),
              [AppendSnowball (next_entity sc) spawnPosition, Pulse 0.4 30])))"


section \<open>The running program\<close>

text \<open>
  A-Frame runs everything on one thread: each frame it calls the tick of every component
  in the scene, and between frames it delivers the grip and trigger events. The world is
  the scene with the state of the hand components, keyed by the id of their element, and
  an event is one such call with what it reads from the scene graph and the clock.
\<close>

record world =
  w_scene :: scene
  hands :: "string \<Rightarrow> rolling_hand"

datatype event =
    SnowballTick real entity
  | HandTick string real hand_env
  | GrabStart string hand_env
  | GrabEnd string hand_env
  | SpawnSeed real hand_env
  | SetArMode bool

definition hand_result ::
  "string \<Rightarrow> world \<Rightarrow> rolling_hand \<times> scene option \<times> effect list \<Rightarrow> world" where
  "hand_result ident w r =
     \<lparr>w_scene = (case fst (snd r) of Some sc \<Rightarrow> sc | None \<Rightarrow> w_scene w),
      hands = (hands w)(ident := fst r)\<rparr>"

fun step :: "event \<Rightarrow> world \<Rightarrow> world" where
  "step (SnowballTick timeDelta el) w =
     (if el \<in> set (snowballs (snow (w_scene w)))
      then w\<lparr>w_scene := snowball_tick timeDelta el (w_scene w)\<rparr> else w)"
| "step (HandTick ident timeDelta env) w =
     hand_result ident w (hand_tick timeDelta env (Some (w_scene w)) (hands w ident))"
| "step (GrabStart ident env) w =
     hand_result ident w (onGrabStart env (Some (w_scene w)) (hands w ident))"
| "step (GrabEnd ident env) w =
     hand_result ident w (onGrabEnd env (Some (w_scene w)) (hands w ident))"
| "step (SpawnSeed spawnOffset env) w =
     (case fst (spawnSeed spawnOffset env (Some (w_scene w))) of
        Some sc \<Rightarrow> w\<lparr>w_scene := sc\<rparr> | None \<Rightarrow> w)"
| "step (SetArMode ar) w =
     w\<lparr>w_scene := (w_scene w)\<lparr>snow := setArMode ar (snow (w_scene w))\<rparr>\<rparr>"

definition world_init :: "(string \<Rightarrow> hand_data) \<Rightarrow> world" where
  "world_init cfg = \<lparr>w_scene = scene_init, hands = (\<lambda>ident. hand_init ident (cfg ident))\<rparr>"

definition run :: "event list \<Rightarrow> world \<Rightarrow> world" where
  "run evs w = fold step evs w"

text \<open>
  A snowball that has only grown: same \<open>baseRadius\<close>, \<open>radius\<close> not smaller. A scene whose
  snowballs have only grown, with the entities created in between at least at their base
  radius. The entities of a scene are those at the addresses below \<open>next_entity\<close>.
\<close>

definition grown :: "snowball \<Rightarrow> snowball \<Rightarrow> bool" where
  "grown s s' \<longleftrightarrow> baseRadius s' = baseRadius s \<and> radius s \<le> radius s'"

definition scene_grown :: "scene \<Rightarrow> scene \<Rightarrow> bool" where
  "scene_grown sc sc' \<longleftrightarrow>
     next_entity sc \<le> next_entity sc' \<and>
     (\<forall>el < next_entity sc. grown (entities sc el) (entities sc' el)) \<and>
     (\<forall>el. next_entity sc \<le> el \<and> el < next_entity sc' \<longrightarrow>
        baseRadius (entities sc' el) \<le> radius (entities sc' el))"

definition radius_ok :: "scene \<Rightarrow> bool" where
  "radius_ok sc \<longleftrightarrow> (\<forall>el < next_entity sc. baseRadius (entities sc el) \<le> radius (entities sc el))"

text \<open>A hand holds at most one of a rolling and a grabbed snowball.\<close>

definition exclusive :: "rolling_hand \<Rightarrow> bool" where
  "exclusive h \<longleftrightarrow> rollingSnowball h = None \<or> grabbedSnowball h = None"

text \<open>The same hand with another configured crush threshold.\<close>

definition with_crushThreshold :: "real \<Rightarrow> rolling_hand \<Rightarrow> rolling_hand" where
  "with_crushThreshold c h = h\<lparr>data := (data h)\<lparr>crushThreshold := c\<rparr>\<rparr>"


text \<open>
  The condition of the spawn by drag, with the time since the last spawn left open: the
  hand neither rolls nor grabs, its smoothed point is no higher than \<open>handRadius + 0.05\<close>
  above the ground, and since the previous tick it has moved more than 0.005 horizontally
  and more than 0.006 upwards.
\<close>

definition drag_gesture :: "real \<Rightarrow> hand_env \<Rightarrow> scene \<Rightarrow> rolling_hand \<Rightarrow> bool" where
  "drag_gesture timeDelta env sc h \<longleftrightarrow>
     (let handPoint = tick_handPoint timeDelta env h;
          rawDelta = tick_rawDelta handPoint h
      in rollingSnowball h = None \<and> grabbedSnowball h = None \<and>
         vec_y handPoint \<le> groundHeight (snow sc) + handRadius (data h) + 0.05 \<and>
         hypot (vec_x rawDelta) (vec_z rawDelta) > 0.005 \<and>
         vec_y rawDelta > 0.006)"

definition spawns :: "effect list \<Rightarrow> bool" where
  "spawns effs \<longleftrightarrow> (\<exists>el p. AppendSnowball el p \<in> set effs)"

definition drag_spawn_position :: "real \<Rightarrow> hand_env \<Rightarrow> scene \<Rightarrow> rolling_hand \<Rightarrow> Vector3" where
  "drag_spawn_position timeDelta env sc h =
     Vector3 (vec_x (tick_handPoint timeDelta env h)) (groundHeight (snow sc) + 0.03)
             (vec_z (tick_handPoint timeDelta env h))"


section \<open>Concrete states\<close>

text \<open>A left hand with the default configuration that holds the entity at address 0.\<close>

definition holding_hand :: "Vector3 \<Rightarrow> rolling_hand" where
  "holding_hand v =
     (hand_init ''leftHand'' default_data)\<lparr>grabbedSnowball := Some 0, handVelocity := Some v\<rparr>"

definition still_env :: hand_env where
  "still_env = \<lparr>handPosition = v_zero, handQuaternion = (\<lambda>v. v), to_world = (\<lambda>_ p. p),
                to_local = (\<lambda>_ p. p), now = 1000, now_haptic = 1000\<rparr>"

text \<open>
  A left hand that ended its last tick with its finger tip on the ground at the origin,
  and a moment at which the controller is 0.05 further along x and 0.05 higher, with the
  clock at \<open>t\<close>.
\<close>

definition resting_hand :: rolling_hand where
  "resting_hand =
     (hand_init ''leftHand'' default_data)
       \<lparr>prevHandPosition := Some v_zero, smoothedHandPoint := Some v_zero,
        handVelocity := Some v_zero\<rparr>"

definition rising_env :: "real \<Rightarrow> hand_env" where
  "rising_env t = still_env\<lparr>handPosition := Vector3 0.05 0.1 0, now := t, now_haptic := t\<rparr>"


section \<open>Facts about vectors\<close>

lemma v_length_axis_x: "v_length (Vector3 a 0 0) = \<bar>a\<bar>"
  by (simp add: v_length_def)

lemma v_length_multiplyScalar: "v_length (multiplyScalar a s) = \<bar>s\<bar> * v_length a"
proof -
  have "vec_x a * s * (vec_x a * s) + vec_y a * s * (vec_y a * s) + vec_z a * s * (vec_z a * s)
        = s\<^sup>2 * (vec_x a * vec_x a + vec_y a * vec_y a + vec_z a * vec_z a)"
    by (simp add: power2_eq_square algebra_simps)
  then show ?thesis
    by (simp add: v_length_def multiplyScalar_def real_sqrt_mult)
qed


lemmas vec_defs = v_sub_def v_add_def multiplyScalar_def dot_def addScaledVector_def


section \<open>Collision resolution\<close>








lemma ball_simps:
  "position (ball p v) = p" "velocity (ball p v) = v" "radius (ball p v) = 0.03"
  "baseRadius (ball p v) = 0.03" "parent (ball p v) = SceneNode" "scale (ball p v) = 1"
  by (simp_all add: ball_def snowball_init_def)

lemma ball_position_update: "(ball p v)\<lparr>position := p', velocity := v'\<rparr> = ball p' v'"
  by (simp add: ball_def snowball_init_def)








lemma dot_multiplyScalar_left: "dot (multiplyScalar a k) b = k * dot a b"
  by (simp add: dot_def multiplyScalar_def algebra_simps)

lemma dot_multiplyScalar_right: "dot a (multiplyScalar b k) = k * dot a b"
  by (simp add: dot_def multiplyScalar_def algebra_simps)

lemma dot_v_sub_left: "dot (v_sub a b) c = dot a c - dot b c"
  by (simp add: dot_def v_sub_def algebra_simps)

lemma dot_addScaledVector_left: "dot (addScaledVector a v k) c = dot a c + k * dot v c"
  by (simp add: dot_def addScaledVector_def algebra_simps)

lemma dot_self_unit: "v_length u = 1 \<Longrightarrow> dot u u = 1"
  by (simp add: v_length_def dot_def)

lemma separating_normal_unit:
  assumes "overlapping s other"
  shows "v_length (separating_normal s other) = 1"
proof -
  from assms have "0 < v_length (v_sub (position s) (position other))"
    by (simp add: overlapping_def distanceTo_def)
  then show ?thesis
    by (simp add: separating_normal_def Let_def v_length_multiplyScalar) (simp add: v_length_def)
qed

lemma tick_resolve_velocity:
  assumes "overlapping s other"
  shows "velocity (tick_resolve dt other s) =
           (let normal = multiplyScalar (separating_normal s other) (radius s + radius other);
                separation = dot (velocity s) normal;
                v1 = (if separation < 0 then addScaledVector (velocity s) normal (- separation)
                      else velocity s);
                tangential = v_sub v1 (multiplyScalar normal (dot v1 normal))
            in v_sub v1 (multiplyScalar tangential (1 - max 0 (1 - 20.0 * dt))))"
  using assms
  by (simp add: tick_resolve_def separating_normal_def overlapping_def distanceTo_def Let_def)

text \<open>
  What the scaled normal does to the velocity along the separating normal \<open>u\<close>: a body
  moving into the other with \<open>v \<cdot> u < 0\<close> keeps the part
  \<open>(1 - m\<^sup>2) * (1 - (1 - friction) * (1 - m\<^sup>2))\<close> of it, with \<open>m\<close> the sum of the radii. It
  is cancelled only for \<open>m = 1\<close>.
\<close>

lemma tick_resolve_normal_velocity:
  assumes "overlapping s other" and "dot (velocity s) (separating_normal s other) < 0"
  shows "dot (velocity (tick_resolve dt other s)) (separating_normal s other) =
           dot (velocity s) (separating_normal s other)
             * (1 - (radius s + radius other)\<^sup>2)
             * (1 - (1 - max 0 (1 - 20.0 * dt)) * (1 - (radius s + radius other)\<^sup>2))"
proof -
  let ?u = "separating_normal s other"
  let ?m = "radius s + radius other"
  let ?f = "max 0 (1 - 20.0 * dt)"
  let ?a = "dot (velocity s) ?u"
  have uu: "dot ?u ?u = 1"
    using assms(1) by (intro dot_self_unit separating_normal_unit)
  from assms(1) have "0 < distanceTo (position s) (position other)"
    and "distanceTo (position s) (position other) < ?m"
    by (simp_all add: overlapping_def)
  then have m: "0 < ?m" by linarith
  have sep: "dot (velocity s) (multiplyScalar ?u ?m) < 0"
    using assms(2) m by (simp add: dot_multiplyScalar_right mult_pos_neg)
  define v1 where "v1 = addScaledVector (velocity s) (multiplyScalar ?u ?m)
                          (- dot (velocity s) (multiplyScalar ?u ?m))"
  have v1u: "dot v1 ?u = ?a * (1 - ?m\<^sup>2)"
    by (simp add: v1_def dot_addScaledVector_left dot_multiplyScalar_left
        dot_multiplyScalar_right uu power2_eq_square algebra_simps)
  have "velocity (tick_resolve dt other s) =
          v_sub v1 (multiplyScalar
                      (v_sub v1 (multiplyScalar (multiplyScalar ?u ?m)
                                   (dot v1 (multiplyScalar ?u ?m))))
                      (1 - ?f))"
    using sep by (simp add: tick_resolve_velocity [OF assms(1)] Let_def v1_def)
  then have "dot (velocity (tick_resolve dt other s)) ?u
               = dot v1 ?u - (1 - ?f) * (dot v1 ?u - ?m * dot v1 ?u * ?m)"
    by (simp add: dot_v_sub_left dot_multiplyScalar_left dot_multiplyScalar_right uu)
  also have "\<dots> = ?a * (1 - ?m\<^sup>2) * (1 - (1 - ?f) * (1 - ?m\<^sup>2))"
    unfolding v1u by (simp add: power2_eq_square algebra_simps)
  finally show ?thesis .
qed

lemma tick_resolve_still_inward:
  assumes "overlapping s other" and "dot (velocity s) (separating_normal s other) < 0"
    and "radius s + radius other < 1"
  shows "dot (velocity (tick_resolve dt other s)) (separating_normal s other) < 0"
proof -
  let ?m = "radius s + radius other"
  let ?f = "max 0 (1 - 20.0 * dt)"
  from assms(1) have "0 < distanceTo (position s) (position other)"
    and "distanceTo (position s) (position other) < ?m"
    by (simp_all add: overlapping_def)
  then have m: "0 < ?m" by linarith
  with assms(3) have "?m * ?m < 1 * 1"
    by (intro mult_strict_mono) simp_all
  then have k: "0 < 1 - ?m\<^sup>2"
    by (simp add: power2_eq_square)
  have k1: "1 - ?m\<^sup>2 < 1"
    using m by simp
  define K where "K = 1 - ?m\<^sup>2"
  define C where "C = 1 - ?f"
  have K: "0 < K" "K < 1" and C: "C \<le> 1"
    using k k1 by (simp_all add: K_def C_def)
  have "0 < 1 - C * K"
  proof (cases "C \<le> 0")
    case True
    then have "C * K \<le> 0"
      using K by (intro mult_nonpos_nonneg) simp_all
    then show ?thesis by linarith
  next
    case False
    have "C * K \<le> 1 * K"
      using K C by (intro mult_right_mono) simp_all
    then have "C * K \<le> K" by (simp only: mult_1)
    with K show ?thesis by linarith
  qed
  then have g: "0 < 1 - (1 - ?f) * (1 - ?m\<^sup>2)"
    by (simp add: K_def C_def)
  have "dot (velocity s) (separating_normal s other) * (1 - ?m\<^sup>2) < 0"
    using assms(2) k by (simp add: mult_neg_pos)
  then have "dot (velocity s) (separating_normal s other) * (1 - ?m\<^sup>2)
               * (1 - (1 - ?f) * (1 - ?m\<^sup>2)) < 0"
    using g by (simp add: mult_neg_pos)
  then show ?thesis
    by (simp only: tick_resolve_normal_velocity [OF assms(1,2)])
qed

text \<open>
  C1 fails on the code. Two snowballs of radius 0.03 rest on the ground at height 0: \<open>B\<close>
  at the origin of the ground plane and \<open>A\<close> 0.056 beside it, moving towards \<open>B\<close> at 1 m/s.
  One tick of 16 ms of \<open>A\<close> resolves the overlap: \<open>A\<close> ends touching \<open>B\<close>, with the separating
  normal \<open>(1, 0, 0)\<close>, and its velocity along that normal is still about -0.646.
\<close>

theorem tick_keeps_inward_velocity:
  "(let sc = scene_init
        \<lparr>snow := system_init\<lparr>snowballs := [0, 1]\<rparr>,
         entities := (\<lambda>_. ball v_zero v_zero)
            (0 := ball (Vector3 0 0.03 0) v_zero,
             1 := ball (Vector3 0.056 0.03 0) (Vector3 (- 1) 0 0)),
         next_entity := 2\<rparr>;
        a = entities (snowball_tick 16 1 sc) 1;
        b = entities (snowball_tick 16 1 sc) 0
    in position b = Vector3 0 0.03 0 \<and>
       position a = Vector3 0.06 0.03 0 \<and>
       velocity a = Vector3 (- 0.6461222598656) 0 0 \<and>
       dot (velocity a) (Vector3 1 0 0) < 0)"
proof -
  let ?B = "ball (Vector3 0 0.03 0) v_zero"
  have i: "tick_integrate 0.016 0 (ball (Vector3 0.056 0.03 0) (Vector3 (- 1) 0 0))
             = ball (Vector3 0.04 0.03 0) (Vector3 (- 0.952) 0 0)"
    by (simp add: tick_integrate_def Let_def ball_simps ball_position_update addScaledVector_def)
  have r1: "tick_resolve 0.016 ?B (ball (Vector3 0.04 0.03 0) (Vector3 (- 0.952) 0 0))
             = ball (Vector3 0.06 0.03 0) (Vector3 (- 0.6461222598656) 0 0)"
    by (simp add: Let_def tick_resolve_def ball_simps ball_position_update vec_defs v_length_axis_x)
  have r2: "tick_resolve 0.016 ?B (ball (Vector3 0.06 0.03 0) (Vector3 (- 0.6461222598656) 0 0))
             = ball (Vector3 0.06 0.03 0) (Vector3 (- 0.6461222598656) 0 0)"
    by (simp add: Let_def tick_resolve_def ball_simps vec_defs v_length_axis_x)
  show ?thesis
    by (simp add: Let_def snowball_tick_def scene_init_def system_init_def
          i [simplified] r1 [simplified] r2 [simplified])
       (simp add: ball_simps dot_def)
qed


section \<open>Growth of a snowball\<close>

text \<open>
  C7. \<open>growBy(distance)\<close> with \<open>distance \<le> 0\<close> changes nothing, so radius and visual
  scale stay as they are; with \<open>distance > 0\<close> the radius grows by exactly
  \<open>distance * 0.05\<close> and the visual scale becomes the new radius over \<open>baseRadius\<close>.
\<close>

theorem growBy_spec:
  "(distance \<le> 0 \<longrightarrow> growBy distance s = s) \<and>
   (distance > 0 \<longrightarrow>
      radius (growBy distance s) = radius s + distance * 0.05 \<and>
      scale (growBy distance s) = radius (growBy distance s) / baseRadius s \<and>
      baseRadius (growBy distance s) = baseRadius s)"
  by (simp add: growBy_def Let_def)

theorem growBy_spec_witness:
  "growBy (-1) (snowball_init (Vector3 0 0 0) 0.03) = snowball_init (Vector3 0 0 0) 0.03 \<and>
   radius (growBy 2 (snowball_init (Vector3 0 0 0) 0.03)) = 0.13 \<and>
   scale (growBy 2 (snowball_init (Vector3 0 0 0) 0.03)) = 13 / 3"
  using growBy_spec [of "-1" "snowball_init (Vector3 0 0 0) 0.03"]
        growBy_spec [of 2 "snowball_init (Vector3 0 0 0) 0.03"]
  by (simp add: snowball_init_def)


section \<open>Particle wrap\<close>

lemma particle_tick_kept:
  assumes "\<not> pos_y (particle_advance time dt d p) < groundY - 0.2"
  shows "fst (particle_tick time dt d groundY rnd k p)
           = particle_wrap (max 1 (area d) * 0.5) (particle_advance time dt d p)"
  using assms by (simp add: particle_tick_def Let_def particle_wrap_def)

lemma particles_tick_length:
  "length (particles_tick time dt d groundY rnd k ps) = length ps"
  by (induction ps arbitrary: k) (simp_all split: prod.splits)

lemma particles_tick_nth:
  assumes "i < length ps"
  shows "\<exists>k'. particles_tick time dt d groundY rnd k ps ! i
                 = fst (particle_tick time dt d groundY rnd k' (ps ! i))"
  using assms
proof (induction ps arbitrary: k i)
  case Nil
  then show ?case by simp
next
  case (Cons p ps)
  obtain p' k' where pt: "particle_tick time dt d groundY rnd k p = (p', k')"
    by (cases "particle_tick time dt d groundY rnd k p")
  show ?case
  proof (cases i)
    case 0
    with pt have "particles_tick time dt d groundY rnd k (p # ps) ! i
                    = fst (particle_tick time dt d groundY rnd k ((p # ps) ! i))"
      by simp
    then show ?thesis ..
  next
    case (Suc j)
    with Cons.prems have "j < length ps" by simp
    from Cons.IH [OF this, of k'] Suc pt show ?thesis by simp
  qed
qed

lemma wrap_cases:
  assumes "0 < h"
  shows "(c > h \<longrightarrow> wrap h c = - h) \<and> (c < - h \<longrightarrow> wrap h c = h) \<and>
         (- h \<le> c \<and> c \<le> h \<longrightarrow> wrap h c = c)"
  using assms by (auto simp add: wrap_def)

lemma particle_wrap_coords:
  "pos_x (particle_wrap h p) = wrap h (pos_x p)" "pos_z (particle_wrap h p) = wrap h (pos_z p)"
  by (simp_all add: particle_wrap_def)

text \<open>
  C9. In a tick that runs (component enabled, mesh present, positive time step), take any
  particle and its position after the update by wind, sway and fall. The wrap tests send
  a horizontal coordinate above \<open>halfArea\<close> to exactly \<open>- halfArea\<close> and one below
  \<open>- halfArea\<close> to exactly \<open>halfArea\<close>, on the X and on the Z axis, and leave a coordinate
  within the area as it is; this is the particle's position at the end of the tick unless
  the same iteration respawns it for having fallen below the ground.
\<close>

theorem particle_wrap_spec:
  "(let deltaSeconds = timeDelta / 1000;
        halfArea = max 1 (area d) * 0.5;
        a = particle_advance time deltaSeconds d (ps ! i);
        w = particle_wrap halfArea a;
        p' = snowfall_tick time timeDelta d mesh groundY rnd ps ! i
    in (pos_x a > halfArea \<longrightarrow> pos_x w = - halfArea) \<and>
       (pos_x a < - halfArea \<longrightarrow> pos_x w = halfArea) \<and>
       (- halfArea \<le> pos_x a \<and> pos_x a \<le> halfArea \<longrightarrow> pos_x w = pos_x a) \<and>
       (pos_z a > halfArea \<longrightarrow> pos_z w = - halfArea) \<and>
       (pos_z a < - halfArea \<longrightarrow> pos_z w = halfArea) \<and>
       (- halfArea \<le> pos_z a \<and> pos_z a \<le> halfArea \<longrightarrow> pos_z w = pos_z a) \<and>
       (enabled d \<and> mesh \<and> 0 < timeDelta \<and> i < length ps \<and> \<not> pos_y a < groundY - 0.2
          \<longrightarrow> p' = w))"
proof -
  let ?dt = "timeDelta / 1000"
  let ?h = "max 1 (area d) * 0.5"
  let ?a = "particle_advance time ?dt d (ps ! i)"
  have h: "0 < ?h" by (simp add: max_def)
  have kept: "snowfall_tick time timeDelta d mesh groundY rnd ps ! i = particle_wrap ?h ?a"
    if run: "enabled d" "mesh" "0 < timeDelta" and len: "i < length ps"
      and keep: "\<not> pos_y ?a < groundY - 0.2"
  proof -
    from run have "snowfall_tick time timeDelta d mesh groundY rnd ps
                          = particles_tick time ?dt d groundY rnd 0 ps"
      by (simp add: snowfall_tick_def Let_def)
    moreover obtain k' where "particles_tick time ?dt d groundY rnd 0 ps ! i
                                = fst (particle_tick time ?dt d groundY rnd k' (ps ! i))"
      using particles_tick_nth [OF len] by blast
    ultimately show ?thesis
      using particle_tick_kept [OF keep] by simp
  qed
  show ?thesis
    unfolding Let_def particle_wrap_coords
    using wrap_cases [OF h, of "pos_x ?a"] wrap_cases [OF h, of "pos_z ?a"] kept
    by blast
qed

theorem particle_wrap_spec_witness:
  "(let d = \<lparr>enabled = True, area = 12, height = 10, fallSpeed = 0.45,
             windX = 0.03, windZ = 0.015\<rparr>;
        p = \<lparr>pos_x = 5.99, pos_y = 5, pos_z = - 6.13, fall_velocity = 0.5, phase = 0,
             particle_scale = 1\<rparr>;
        q = \<lparr>pos_x = - 6.05, pos_y = 5, pos_z = 5.9, fall_velocity = 0.5, phase = 0,
             particle_scale = 1\<rparr>;
        r = \<lparr>pos_x = 0, pos_y = 5, pos_z = - 6.2, fall_velocity = 0.5, phase = 0,
             particle_scale = 1\<rparr>;
        ps' = snowfall_tick 0 1000 d True 0 (\<lambda>_. 0) [p, q, r]
    in pos_x (particle_advance 0 1 d p) = 6.02 \<and> pos_z (particle_advance 0 1 d p) = - 5.995 \<and>
       pos_x (particle_advance 0 1 d q) = - 6.02 \<and> pos_z (particle_advance 0 1 d q) = 6.035 \<and>
       pos_x (particle_advance 0 1 d r) = 0.03 \<and> pos_z (particle_advance 0 1 d r) = - 6.065 \<and>
       pos_x (ps' ! 0) = - 6 \<and> pos_z (ps' ! 0) = - 5.995 \<and>
       pos_x (ps' ! 1) = 6 \<and> pos_z (ps' ! 1) = - 6 \<and>
       pos_x (ps' ! 2) = 0.03 \<and> pos_z (ps' ! 2) = 6)"
proof -
  let ?d = "\<lparr>enabled = True, area = 12, height = 10, fallSpeed = 0.45,
             windX = 0.03, windZ = 0.015\<rparr>"
  let ?p = "\<lparr>pos_x = 5.99, pos_y = 5, pos_z = - 6.13, fall_velocity = 0.5, phase = 0,
             particle_scale = 1\<rparr>"
  let ?q = "\<lparr>pos_x = - 6.05, pos_y = 5, pos_z = 5.9, fall_velocity = 0.5, phase = 0,
             particle_scale = 1\<rparr>"
  let ?r = "\<lparr>pos_x = 0, pos_y = 5, pos_z = - 6.2, fall_velocity = 0.5, phase = 0,
             particle_scale = 1\<rparr>"
  let ?ps' = "snowfall_tick 0 1000 ?d True 0 (\<lambda>_. 0) [?p, ?q, ?r]"
  have a: "particle_advance 0 1 ?d ?p = ?p\<lparr>pos_x := 6.02, pos_y := 4.5, pos_z := - 5.995\<rparr>"
    by (simp add: particle_advance_def Let_def)
  have b: "particle_advance 0 1 ?d ?q = ?q\<lparr>pos_x := - 6.02, pos_y := 4.5, pos_z := 6.035\<rparr>"
    by (simp add: particle_advance_def Let_def)
  have c: "particle_advance 0 1 ?d ?r = ?r\<lparr>pos_x := 0.03, pos_y := 4.5, pos_z := - 6.065\<rparr>"
    by (simp add: particle_advance_def Let_def)
  from particle_wrap_spec [where timeDelta = 1000 and d = ?d and time = 0
      and ps = "[?p, ?q, ?r]" and i = 0 and mesh = True and groundY = 0 and rnd = "\<lambda>_. 0"]
  have 0: "pos_x (?ps' ! 0) = - 6" "pos_z (?ps' ! 0) = - 5.995"
    by (simp_all add: Let_def a [simplified] particle_wrap_def wrap_def)
  from particle_wrap_spec [where timeDelta = 1000 and d = ?d and time = 0
      and ps = "[?p, ?q, ?r]" and i = 1 and mesh = True and groundY = 0 and rnd = "\<lambda>_. 0"]
  have 1: "pos_x (?ps' ! 1) = 6" "pos_z (?ps' ! 1) = - 6"
    by (simp_all add: Let_def b [simplified] particle_wrap_def wrap_def)
  from particle_wrap_spec [where timeDelta = 1000 and d = ?d and time = 0
      and ps = "[?p, ?q, ?r]" and i = 2 and mesh = True and groundY = 0 and rnd = "\<lambda>_. 0"]
  have 2: "pos_x (?ps' ! 2) = 0.03" "pos_z (?ps' ! 2) = 6"
    by (simp_all add: Let_def c [simplified] particle_wrap_def wrap_def)
  show ?thesis
    using 0 1 2 by (simp add: Let_def a [simplified] b [simplified] c [simplified])
qed


section \<open>Releasing a grabbed snowball\<close>

lemma v_length_nonneg: "0 \<le> v_length a"
  by (simp add: v_length_def)

lemma multiplyScalar_twice: "multiplyScalar (multiplyScalar a s) t = multiplyScalar a (s * t)"
  by (simp add: multiplyScalar_def algebra_simps)

lemma setLength_length:
  assumes "v_length a \<noteq> 0" and "0 \<le> l"
  shows "v_length (setLength a l) = l"
proof -
  have "0 < v_length a"
    using assms(1) v_length_nonneg [of a] by linarith
  then show ?thesis
    using assms by (simp add: setLength_def v_normalize_def v_length_multiplyScalar)
qed

lemma release_rest_fields:
  "velocity (release_rest sc sb wp s1) = velocity s1"
  "radius (release_rest sc sb wp s1) = radius s1"
  "baseRadius (release_rest sc sb wp s1) = baseRadius s1"
  "parent (release_rest sc sb wp s1) = parent s1"
  by (simp_all add: release_rest_def Let_def split: option.splits)

lemma onGrabEnd_velocity:
  assumes "grabbedSnowball h = Some g"
  shows "\<exists>sc' effs. onGrabEnd env (Some sc) h = (h\<lparr>grabbedSnowball := None\<rparr>, Some sc', effs)
               \<and> velocity (entities sc' g) = throwVelocity (handVelocity h)"
  using assms by (simp add: onGrabEnd_def Let_def release_rest_fields)

lemma throwVelocity_slow:
  assumes "v_length (multiplyScalar v 0.6) < 0.2"
  shows "throwVelocity (Some v) = v_zero"
  using assms by (simp add: throwVelocity_def Let_def)

lemma throwVelocity_mid:
  assumes "0.2 \<le> v_length (multiplyScalar v 0.6)" and "v_length (multiplyScalar v 0.6) \<le> 3"
  shows "throwVelocity (Some v) = multiplyScalar v 0.6"
  using assms by (simp add: throwVelocity_def Let_def)

lemma throwVelocity_fast:
  assumes "3 < v_length (multiplyScalar v 0.6)"
  shows "v_length (throwVelocity (Some v)) = 3"
    and "throwVelocity (Some v) = multiplyScalar v (3 / v_length v)"
proof -
  let ?t = "multiplyScalar v 0.6"
  from assms have t: "throwVelocity (Some v) = setLength ?t 3"
    by (simp add: throwVelocity_def Let_def)
  from assms have n: "v_length ?t \<noteq> 0" by simp
  with t show "v_length (throwVelocity (Some v)) = 3"
    by (simp add: setLength_length)
  from n have "v_length v \<noteq> 0"
    by (simp add: v_length_multiplyScalar)
  then show "throwVelocity (Some v) = multiplyScalar v (3 / v_length v)"
    using n t
    by (simp add: setLength_def v_normalize_def multiplyScalar_twice v_length_multiplyScalar)
qed

text \<open>
  C4. Releasing a grabbed snowball gives it the velocity \<open>throwVelocity\<close> of the hand's
  latest estimated velocity \<open>v\<close>: the zero vector when \<open>0.6 * v\<close> is shorter than 0.2,
  \<open>0.6 * v\<close> itself up to length 3, and beyond that the vector of length exactly 3 along
  \<open>v\<close>. A hand speed of 5 gives a throw of speed exactly 3 along \<open>v\<close>, and a hand speed of
  0.1 gives the zero vector.
\<close>

theorem release_throw_velocity:
  "(grabbedSnowball h = Some g \<longrightarrow>
      (\<exists>sc' effs. onGrabEnd env (Some sc) h = (h\<lparr>grabbedSnowball := None\<rparr>, Some sc', effs)
         \<and> velocity (entities sc' g) = throwVelocity (handVelocity h))) \<and>
   (v_length (multiplyScalar v 0.6) < 0.2 \<longrightarrow> throwVelocity (Some v) = v_zero) \<and>
   (0.2 \<le> v_length (multiplyScalar v 0.6) \<and> v_length (multiplyScalar v 0.6) \<le> 3 \<longrightarrow>
      throwVelocity (Some v) = multiplyScalar v 0.6) \<and>
   (3 < v_length (multiplyScalar v 0.6) \<longrightarrow>
      v_length (throwVelocity (Some v)) = 3 \<and>
      throwVelocity (Some v) = multiplyScalar v (3 / v_length v) \<and> 0 < 3 / v_length v) \<and>
   (v_length v = 5 \<longrightarrow>
      v_length (throwVelocity (Some v)) = 3 \<and> throwVelocity (Some v) = multiplyScalar v 0.6) \<and>
   (v_length v = 0.1 \<longrightarrow> throwVelocity (Some v) = v_zero)"
proof (intro conjI impI)
  assume "grabbedSnowball h = Some g"
  then show "\<exists>sc' effs. onGrabEnd env (Some sc) h = (h\<lparr>grabbedSnowball := None\<rparr>, Some sc', effs)
          \<and> velocity (entities sc' g) = throwVelocity (handVelocity h)"
    by (rule onGrabEnd_velocity)
next
  assume "v_length (multiplyScalar v 0.6) < 0.2"
  then show "throwVelocity (Some v) = v_zero" by (rule throwVelocity_slow)
next
  assume "0.2 \<le> v_length (multiplyScalar v 0.6) \<and> v_length (multiplyScalar v 0.6) \<le> 3"
  then show "throwVelocity (Some v) = multiplyScalar v 0.6" by (simp add: throwVelocity_mid)
next
  assume f: "3 < v_length (multiplyScalar v 0.6)"
  then show "v_length (throwVelocity (Some v)) = 3"
    and "throwVelocity (Some v) = multiplyScalar v (3 / v_length v)"
    by (rule throwVelocity_fast)+
  from f have "v_length v \<noteq> 0" by (auto simp add: v_length_multiplyScalar)
  with v_length_nonneg [of v] show "0 < 3 / v_length v" by simp
next
  assume "v_length v = 5"
  then have l: "v_length (multiplyScalar v 0.6) = 3"
    by (simp add: v_length_multiplyScalar)
  then show "throwVelocity (Some v) = multiplyScalar v 0.6"
    by (simp add: throwVelocity_mid)
  with l show "v_length (throwVelocity (Some v)) = 3" by simp
next
  assume "v_length v = 0.1"
  then have "v_length (multiplyScalar v 0.6) < 0.2"
    by (simp add: v_length_multiplyScalar)
  then show "throwVelocity (Some v) = v_zero" by (rule throwVelocity_slow)
qed

theorem release_throw_velocity_witness:
  "grabbedSnowball (holding_hand (Vector3 5 0 0)) = Some 0 \<and>
   velocity (entities (the (fst (snd (onGrabEnd still_env (Some scene_init)
                (holding_hand (Vector3 5 0 0)))))) 0) = Vector3 3 0 0 \<and>
   v_length (Vector3 5 0 0) = 5 \<and> throwVelocity (Some (Vector3 5 0 0)) = Vector3 3 0 0 \<and>
   v_length (Vector3 0.1 0 0) = 0.1 \<and> throwVelocity (Some (Vector3 0.1 0 0)) = v_zero \<and>
   v_length (multiplyScalar (Vector3 10 0 0) 0.6) = 6 \<and>
   throwVelocity (Some (Vector3 10 0 0)) = Vector3 3 0 0 \<and>
   v_length (multiplyScalar (Vector3 1 0 0) 0.6) = 0.6 \<and>
   throwVelocity (Some (Vector3 1 0 0)) = Vector3 0.6 0 0"
proof -
  have g: "grabbedSnowball (holding_hand (Vector3 5 0 0)) = Some 0"
    and hv: "handVelocity (holding_hand (Vector3 5 0 0)) = Some (Vector3 5 0 0)"
    by (simp_all add: holding_hand_def hand_init_def)
  have l: "v_length (Vector3 5 0 0) = 5" "v_length (Vector3 0.1 0 0) = 0.1"
    "v_length (multiplyScalar (Vector3 10 0 0) 0.6) = 6"
    "v_length (multiplyScalar (Vector3 1 0 0) 0.6) = 0.6"
    by (simp_all add: v_length_axis_x multiplyScalar_def)
  note t5 = release_throw_velocity [where h = "holding_hand (Vector3 5 0 0)" and g = 0
      and env = still_env and sc = scene_init and v = "Vector3 5 0 0"]
  note t01 = release_throw_velocity [where v = "Vector3 0.1 0 0"]
  note t10 = release_throw_velocity [where v = "Vector3 10 0 0"]
  note t1 = release_throw_velocity [where v = "Vector3 1 0 0"]
  from t5 l have a: "throwVelocity (Some (Vector3 5 0 0)) = Vector3 3 0 0"
    by (simp add: multiplyScalar_def)
  from t5 g hv a
  have b: "velocity (entities (the (fst (snd (onGrabEnd still_env (Some scene_init)
                (holding_hand (Vector3 5 0 0)))))) 0) = Vector3 3 0 0"
    by auto
  from t01 l have c: "throwVelocity (Some (Vector3 0.1 0 0)) = v_zero"
    by simp
  from t10 l have d: "throwVelocity (Some (Vector3 10 0 0)) = Vector3 3 0 0"
    by (simp add: multiplyScalar_def v_length_axis_x)
  from t1 l have e: "throwVelocity (Some (Vector3 1 0 0)) = Vector3 0.6 0 0"
    by (simp add: multiplyScalar_def)
  from g b l a c d e show ?thesis by simp
qed


section \<open>A hand rolls or grabs, never both\<close>

lemma exclusive_hand_init: "exclusive (hand_init ident d)"
  by (simp add: exclusive_def hand_init_def)

lemma exclusive_onGrabStart:
  assumes "exclusive h"
  shows "exclusive (fst (onGrabStart env scn h))"
  using assms
  by (auto simp add: onGrabStart_def exclusive_def Let_def split: option.splits)

lemma exclusive_onGrabEnd:
  assumes "exclusive h"
  shows "exclusive (fst (onGrabEnd env scn h))"
  using assms
  by (auto simp add: onGrabEnd_def exclusive_def Let_def split: option.splits)

lemma exclusive_tick_acquire:
  assumes "exclusive h"
  shows "exclusive (tick_acquire handPoint sbs sc h)"
  using assms
  by (simp add: tick_acquire_def exclusive_def Let_def split: option.splits)

lemma tick_contact_held:
  "grabbedSnowball (fst (fst (tick_contact env handPoint rolling lastPos dh h sc)))
     = grabbedSnowball h"
  "rollingSnowball (fst (fst (tick_contact env handPoint rolling lastPos dh h sc))) = None
   \<or> rollingSnowball (fst (fst (tick_contact env handPoint rolling lastPos dh h sc)))
       = rollingSnowball h"
  by (simp_all add: tick_contact_def Let_def)

lemma exclusive_tick_contact:
  assumes "exclusive h"
  shows "exclusive (fst (fst (tick_contact env handPoint rolling lastPos dh h sc)))"
  using assms tick_contact_held [of env handPoint rolling lastPos dh h sc]
  by (auto simp add: exclusive_def)

lemma exclusive_tick_roll:
  assumes "exclusive h"
  shows "exclusive (fst (fst (tick_roll env handPoint h sc)))"
proof (cases "rollingSnowball h")
  case None
  with assms show ?thesis by (simp add: tick_roll_def)
next
  case (Some rolling)
  with assms have g: "grabbedSnowball h = None"
    by (simp add: exclusive_def)
  have l: "exclusive (h\<lparr>lastHandPosition := p\<rparr>)" for p
    using assms by (simp add: exclusive_def)
  have r: "exclusive (h\<lparr>rollingSnowball := None, lastHandPosition := None\<rparr>)"
    by (simp add: exclusive_def)
  show ?thesis
    using Some g l r exclusive_tick_contact [OF assms]
    by (simp add: tick_roll_def Let_def split: option.splits)
qed

lemma exclusive_hand_tick:
  assumes "exclusive h"
  shows "exclusive (fst (hand_tick timeDelta env scn h))"
proof (cases scn)
  case None
  with assms show ?thesis by (simp add: hand_tick_def)
next
  case (Some sc)
  let ?p = "tick_handPoint timeDelta env h"
  define h1 where "h1 = h\<lparr>smoothedHandPoint := Some ?p,
                     handVelocity :=
                       Some (case prevHandPosition h of
                               Some p \<Rightarrow> multiplyScalar (v_sub ?p p) (1 / tick_dt timeDelta)
                             | None \<Rightarrow> v_zero)\<rparr>"
  have "exclusive h1"
    using assms by (simp add: h1_def exclusive_def)
  then have "exclusive (tick_acquire ?p (snowballs (snow sc)) (fst (tick_spawn env ?p h1 sc)) h1)"
    by (rule exclusive_tick_acquire)
  then have e: "exclusive (fst (fst (tick_roll env ?p
                  (tick_acquire ?p (snowballs (snow sc)) (fst (tick_spawn env ?p h1 sc)) h1)
                  (fst (tick_spawn env ?p h1 sc)))))"
    by (rule exclusive_tick_roll)
  then have "exclusive ((fst (fst (tick_roll env ?p
                  (tick_acquire ?p (snowballs (snow sc)) (fst (tick_spawn env ?p h1 sc)) h1)
                  (fst (tick_spawn env ?p h1 sc)))))\<lparr>prevHandPosition := Some ?p\<rparr>)"
    by (simp add: exclusive_def)
  with e show ?thesis
    using Some by (simp add: hand_tick_def Let_def h1_def)
qed

lemma exclusive_step:
  assumes "\<And>ident. exclusive (hands w ident)"
  shows "exclusive (hands (step ev w) ident)"
proof (cases ev)
  case (SnowballTick timeDelta el)
  with assms show ?thesis by simp
next
  case (HandTick i timeDelta env)
  with assms exclusive_hand_tick [OF assms [of i]] show ?thesis
    by (simp add: hand_result_def)
next
  case (GrabStart i env)
  with assms exclusive_onGrabStart [OF assms [of i]] show ?thesis
    by (simp add: hand_result_def)
next
  case (GrabEnd i env)
  with assms exclusive_onGrabEnd [OF assms [of i]] show ?thesis
    by (simp add: hand_result_def)
next
  case (SpawnSeed spawnOffset env)
  with assms show ?thesis by (simp split: option.splits)
next
  case (SetArMode ar)
  with assms show ?thesis by simp
qed

lemma exclusive_fold:
  assumes "\<And>ident. exclusive (hands w ident)"
  shows "exclusive (hands (fold step evs w) ident)"
  using assms
proof (induction evs arbitrary: w ident)
  case Nil
  then show ?case by simp
next
  case (Cons ev evs)
  have "exclusive (hands (fold step evs (step ev w)) ident)"
    by (rule Cons.IH) (rule exclusive_step, rule Cons.prems)
  then show ?case by simp
qed

text \<open>
  C6. Whatever events the program has processed since it started, no hand has both a
  rolling and a grabbed snowball; and each handler of the hand keeps this from any state
  that has it: the tick acquires a rolling snowball only when both are null and afterwards
  only clears \<open>rollingSnowball\<close>, grab start clears \<open>rollingSnowball\<close> when it sets
  \<open>grabbedSnowball\<close>, and grab end only clears \<open>grabbedSnowball\<close>.
\<close>

theorem rolling_grabbed_exclusive:
  "exclusive (hands (run evs (world_init cfg)) ident) \<and>
   (exclusive h \<longrightarrow>
      exclusive (fst (hand_tick timeDelta env scn h)) \<and>
      exclusive (fst (onGrabStart env scn h)) \<and>
      exclusive (fst (onGrabEnd env scn h)))"
proof -
  have "exclusive (hands (world_init cfg) i)" for i
    by (simp add: world_init_def exclusive_hand_init)
  then have "exclusive (hands (run evs (world_init cfg)) ident)"
    unfolding run_def by (rule exclusive_fold)
  then show ?thesis
    by (simp add: exclusive_hand_tick exclusive_onGrabStart exclusive_onGrabEnd)
qed

theorem rolling_grabbed_exclusive_witness:
  "exclusive (holding_hand (Vector3 5 0 0)) \<and>
   exclusive (fst (hand_tick 16 still_env (Some scene_init) (holding_hand (Vector3 5 0 0)))) \<and>
   exclusive (fst (onGrabStart still_env (Some scene_init) (holding_hand (Vector3 5 0 0)))) \<and>
   exclusive (fst (onGrabEnd still_env (Some scene_init) (holding_hand (Vector3 5 0 0)))) \<and>
   exclusive (hands (run [SpawnSeed 0.2 still_env, GrabStart ''leftHand'' still_env]
                      (world_init (\<lambda>_. default_data))) ''leftHand'')"
proof -
  have "exclusive (holding_hand (Vector3 5 0 0))"
    by (simp add: exclusive_def holding_hand_def hand_init_def)
  with rolling_grabbed_exclusive [where h = "holding_hand (Vector3 5 0 0)"
      and evs = "[SpawnSeed 0.2 still_env, GrabStart ''leftHand'' still_env]"
      and cfg = "\<lambda>_. default_data" and ident = "''leftHand''"
      and timeDelta = 16 and env = still_env and scn = "Some scene_init"]
  show ?thesis by simp
qed

section \<open>The configured crush threshold is never read\<close>

lemma getHandPoint_crushThreshold:
  "getHandPoint (with_crushThreshold c h) env = getHandPoint h env"
  by (simp add: getHandPoint_def with_crushThreshold_def)

lemma tick_handPoint_crushThreshold:
  "tick_handPoint timeDelta env (with_crushThreshold c h) = tick_handPoint timeDelta env h"
  by (simp add: tick_handPoint_def getHandPoint_crushThreshold)
     (simp add: with_crushThreshold_def)

lemma getContactDistance_crushThreshold:
  "getContactDistance (d\<lparr>crushThreshold := c\<rparr>) r = getContactDistance d r"
  by (simp add: getContactDistance_def)

lemma tick_spawn_crushThreshold:
  "tick_spawn env handPoint (with_crushThreshold c h) sc = tick_spawn env handPoint h sc"
  by (simp add: tick_spawn_def tick_rawDelta_def with_crushThreshold_def Let_def)

lemma tick_acquire_crushThreshold:
  "tick_acquire handPoint sbs sc (with_crushThreshold c h)
     = with_crushThreshold c (tick_acquire handPoint sbs sc h)"
  by (simp add: tick_acquire_def with_crushThreshold_def getContactDistance_crushThreshold
      Let_def split: option.splits)

lemma tick_contact_crushThreshold:
  "tick_contact env handPoint rolling lastPos dh (with_crushThreshold c h) sc
     = apfst (apfst (with_crushThreshold c)) (tick_contact env handPoint rolling lastPos dh h sc)"
  by (simp add: tick_contact_def with_crushThreshold_def Let_def)

lemma tick_roll_crushThreshold:
  "tick_roll env handPoint (with_crushThreshold c h) sc
     = apfst (apfst (with_crushThreshold c)) (tick_roll env handPoint h sc)"
proof -
  have f: "rollingSnowball (with_crushThreshold c h) = rollingSnowball h"
    "grabbedSnowball (with_crushThreshold c h) = grabbedSnowball h"
    "lastHandPosition (with_crushThreshold c h) = lastHandPosition h"
    "releasePadding (data (with_crushThreshold c h)) = releasePadding (data h)"
    "getContactDistance (data (with_crushThreshold c h)) r = getContactDistance (data h) r" for r
    by (simp_all add: with_crushThreshold_def getContactDistance_crushThreshold)
  have u: "(with_crushThreshold c h)\<lparr>lastHandPosition := p\<rparr>
             = with_crushThreshold c (h\<lparr>lastHandPosition := p\<rparr>)"
    "(with_crushThreshold c h)\<lparr>rollingSnowball := None, lastHandPosition := None\<rparr>
             = with_crushThreshold c (h\<lparr>rollingSnowball := None, lastHandPosition := None\<rparr>)" for p
    by (simp_all add: with_crushThreshold_def)
  show ?thesis
    by (simp add: tick_roll_def f u tick_contact_crushThreshold Let_def split: option.splits)
qed

lemma hand_tick_crushThreshold:
  "hand_tick timeDelta env scn (with_crushThreshold c h)
     = apfst (with_crushThreshold c) (hand_tick timeDelta env scn h)"
proof (cases scn)
  case None
  then show ?thesis by (simp add: hand_tick_def)
next
  case (Some sc)
  have u: "(with_crushThreshold c h)\<lparr>smoothedHandPoint := p, handVelocity := v\<rparr>
             = with_crushThreshold c (h\<lparr>smoothedHandPoint := p, handVelocity := v\<rparr>)" for p v
    by (simp add: with_crushThreshold_def)
  have w: "(with_crushThreshold c k)\<lparr>prevHandPosition := p\<rparr>
             = with_crushThreshold c (k\<lparr>prevHandPosition := p\<rparr>)" for p k
    by (simp add: with_crushThreshold_def)
  have p: "prevHandPosition (with_crushThreshold c h) = prevHandPosition h"
    by (simp add: with_crushThreshold_def)
  show ?thesis
    using Some
    by (simp add: hand_tick_def Let_def tick_handPoint_crushThreshold p u
        tick_spawn_crushThreshold tick_acquire_crushThreshold tick_roll_crushThreshold w)
qed

lemma onGrabStart_crushThreshold:
  "onGrabStart env scn (with_crushThreshold c h)
     = apfst (with_crushThreshold c) (onGrabStart env scn h)"
proof -
  have f: "grabbedSnowball (with_crushThreshold c h) = grabbedSnowball h"
    "el_id (with_crushThreshold c h) = el_id h"
    "getContactDistance (data (with_crushThreshold c h)) r = getContactDistance (data h) r" for r
    by (simp_all add: with_crushThreshold_def getContactDistance_crushThreshold)
  have u: "(with_crushThreshold c h)\<lparr>grabbedSnowball := g, rollingSnowball := None,
                                       lastHandPosition := None\<rparr>
             = with_crushThreshold c (h\<lparr>grabbedSnowball := g, rollingSnowball := None,
                                       lastHandPosition := None\<rparr>)" for g
    by (simp add: with_crushThreshold_def)
  show ?thesis
    by (simp add: onGrabStart_def f u getHandPoint_crushThreshold Let_def split: option.splits)
qed

lemma onGrabEnd_crushThreshold:
  "onGrabEnd env scn (with_crushThreshold c h)
     = apfst (with_crushThreshold c) (onGrabEnd env scn h)"
proof -
  have f: "grabbedSnowball (with_crushThreshold c h) = grabbedSnowball h"
    "handVelocity (with_crushThreshold c h) = handVelocity h"
    by (simp_all add: with_crushThreshold_def)
  have u: "(with_crushThreshold c h)\<lparr>grabbedSnowball := None\<rparr>
             = with_crushThreshold c (h\<lparr>grabbedSnowball := None\<rparr>)"
    by (simp add: with_crushThreshold_def)
  show ?thesis
    by (simp add: onGrabEnd_def f u Let_def split: option.splits)
qed

lemma step_crushThreshold:
  assumes "\<And>ident. hands w' ident = with_crushThreshold (c ident) (hands w ident)"
    and "w_scene w' = w_scene w"
  shows "w_scene (step ev w') = w_scene (step ev w)
         \<and> hands (step ev w') ident = with_crushThreshold (c ident) (hands (step ev w) ident)"
proof (cases ev)
  case (SnowballTick timeDelta el)
  with assms show ?thesis by simp
next
  case (HandTick i timeDelta env)
  with assms show ?thesis
    by (simp add: hand_result_def hand_tick_crushThreshold split: option.splits)
next
  case (GrabStart i env)
  with assms show ?thesis
    by (simp add: hand_result_def onGrabStart_crushThreshold split: option.splits)
next
  case (GrabEnd i env)
  with assms show ?thesis
    by (simp add: hand_result_def onGrabEnd_crushThreshold split: option.splits)
next
  case (SpawnSeed spawnOffset env)
  with assms show ?thesis by (simp split: option.splits)
next
  case (SetArMode ar)
  with assms show ?thesis by simp
qed

lemma fold_step_crushThreshold:
  assumes "\<And>ident. hands w' ident = with_crushThreshold (c ident) (hands w ident)"
    and "w_scene w' = w_scene w"
  shows "w_scene (fold step evs w') = w_scene (fold step evs w)
         \<and> hands (fold step evs w') ident
             = with_crushThreshold (c ident) (hands (fold step evs w) ident)"
  using assms
proof (induction evs arbitrary: w w' ident)
  case Nil
  then show ?case by simp
next
  case (Cons ev evs)
  have "w_scene (fold step evs (step ev w')) = w_scene (fold step evs (step ev w))
        \<and> hands (fold step evs (step ev w')) ident
            = with_crushThreshold (c ident) (hands (fold step evs (step ev w)) ident)"
    using step_crushThreshold [of w' c w ev, OF Cons.prems]
    by (intro Cons.IH) simp_all
  then show ?case by simp
qed

text \<open>
  C5. The tick and the two grab handlers of a hand do the same with any configured
  \<open>crushThreshold\<close>: the same scene, the same effects (haptic pulses, spawns, removals,
  rotations) and the same hand state, which only carries the other configured value
  along. So two runs of the program over the same events whose hand configurations
  differ in \<open>crushThreshold\<close> only go through the same scenes and hand states.
\<close>

theorem crushThreshold_unused:
  "hand_tick timeDelta env scn (with_crushThreshold c h)
     = apfst (with_crushThreshold c) (hand_tick timeDelta env scn h) \<and>
   onGrabStart env scn (with_crushThreshold c h)
     = apfst (with_crushThreshold c) (onGrabStart env scn h) \<and>
   onGrabEnd env scn (with_crushThreshold c h)
     = apfst (with_crushThreshold c) (onGrabEnd env scn h) \<and>
   w_scene (run evs (world_init (\<lambda>ident. (cfg ident)\<lparr>crushThreshold := t ident\<rparr>)))
     = w_scene (run evs (world_init cfg)) \<and>
   hands (run evs (world_init (\<lambda>ident. (cfg ident)\<lparr>crushThreshold := t ident\<rparr>))) ident
     = with_crushThreshold (t ident) (hands (run evs (world_init cfg)) ident)"
proof -
  let ?w' = "world_init (\<lambda>ident. (cfg ident)\<lparr>crushThreshold := t ident\<rparr>)"
  have "hands ?w' i = with_crushThreshold (t i) (hands (world_init cfg) i)" for i
    by (simp add: world_init_def hand_init_def with_crushThreshold_def)
  moreover have "w_scene ?w' = w_scene (world_init cfg)"
    by (simp add: world_init_def)
  ultimately have "w_scene (fold step evs ?w') = w_scene (fold step evs (world_init cfg))
         \<and> hands (fold step evs ?w') ident
             = with_crushThreshold (t ident) (hands (fold step evs (world_init cfg)) ident)"
    by (rule fold_step_crushThreshold)
  then show ?thesis
    by (simp add: run_def hand_tick_crushThreshold onGrabStart_crushThreshold
        onGrabEnd_crushThreshold)
qed


section \<open>Spawn by drag\<close>

lemma tick_contact_no_spawn:
  "\<not> spawns (snd (snd (fst (tick_contact env handPoint rolling lastPos dh h sc))))"
  by (simp add: tick_contact_def spawns_def Let_def)

lemma tick_roll_no_spawn:
  "\<not> spawns (snd (snd (fst (tick_roll env handPoint h sc))))"
  using tick_contact_no_spawn
  by (simp add: tick_roll_def Let_def spawns_def split: option.splits)

lemma tick_spawn_moved:
  "tick_spawn env handPoint (h\<lparr>smoothedHandPoint := p, handVelocity := v\<rparr>) sc
     = tick_spawn env handPoint h sc"
  by (simp add: tick_spawn_def tick_rawDelta_def Let_def)

lemma tick_spawn_effects:
  "snd (tick_spawn env (tick_handPoint timeDelta env h) h sc) =
     (if drag_gesture timeDelta env sc h \<and> now env - lastSpawnTime (snow sc) > 350
      then [AppendSnowball (next_entity sc) (drag_spawn_position timeDelta env sc h),
            Pulse 0.4 30]
      else [])"
  by (auto simp add: tick_spawn_def drag_gesture_def drag_spawn_position_def Let_def)

lemma hand_tick_effects:
  "snd (snd (hand_tick timeDelta env (Some sc) h)) =
     snd (tick_spawn env (tick_handPoint timeDelta env h) h sc) @
     snd (snd (fst (tick_roll env (tick_handPoint timeDelta env h)
       (tick_acquire (tick_handPoint timeDelta env h) (snowballs (snow sc))
          (fst (tick_spawn env (tick_handPoint timeDelta env h) h sc))
          (h\<lparr>smoothedHandPoint := Some (tick_handPoint timeDelta env h),
             handVelocity :=
               Some (case prevHandPosition h of
                       Some p \<Rightarrow> multiplyScalar (v_sub (tick_handPoint timeDelta env h) p)
                                   (1 / tick_dt timeDelta)
                     | None \<Rightarrow> v_zero)\<rparr>))
       (fst (tick_spawn env (tick_handPoint timeDelta env h) h sc)))))"
  by (simp add: hand_tick_def Let_def tick_spawn_moved)

lemma spawns_append: "spawns (xs @ ys) \<longleftrightarrow> spawns xs \<or> spawns ys"
  by (auto simp add: spawns_def)

lemma hand_tick_spawns:
  "spawns (snd (snd (hand_tick timeDelta env (Some sc) h))) \<longleftrightarrow>
     drag_gesture timeDelta env sc h \<and> now env - lastSpawnTime (snow sc) > 350"
  by (simp add: hand_tick_effects spawns_append tick_roll_no_spawn tick_spawn_effects)
     (simp add: spawns_def)

lemma hand_tick_spawn_where:
  assumes "AppendSnowball el p \<in> set (snd (snd (hand_tick timeDelta env (Some sc) h)))"
  shows "el = next_entity sc \<and> p = drag_spawn_position timeDelta env sc h"
proof -
  from assms tick_roll_no_spawn
  have "AppendSnowball el p \<in> set (snd (tick_spawn env (tick_handPoint timeDelta env h) h sc))"
    unfolding hand_tick_effects spawns_def by auto
  then show ?thesis
    by (simp add: tick_spawn_effects split: if_splits)
qed

lemma hypot_axis: "hypot a 0 = \<bar>a\<bar>"
  by (simp add: hypot_def)

text \<open>The smoothing factor of a tick of 16 ms lies strictly between 0.2 and 1.\<close>

lemma smoothFactor_16:
  "0.2 < 1 - exp (- tick_dt 16 * 18)" "1 - exp (- tick_dt 16 * 18) < 1"
proof -
  have d: "- tick_dt 16 * 18 = - 0.288"
    by (simp add: tick_dt_def)
  have "1 + 0.288 \<le> exp (0.288 :: real)"
    by (rule exp_ge_add_one_self)
  then have "inverse (exp (0.288 :: real)) \<le> inverse (1 + 0.288)"
    by (intro le_imp_inverse_le) simp_all
  then have "exp (- (0.288 :: real)) \<le> 1 / 1.288"
    by (simp add: exp_minus inverse_eq_divide)
  then have "exp (- (0.288 :: real)) < 0.8"
    by simp
  then show "0.2 < 1 - exp (- tick_dt 16 * 18)"
    unfolding d by simp
  show "1 - exp (- tick_dt 16 * 18) < 1"
    by simp
qed

lemma rising_handPoint:
  "tick_handPoint 16 (rising_env t) resting_hand
     = Vector3 (0.05 * (1 - exp (- tick_dt 16 * 18))) (0.05 * (1 - exp (- tick_dt 16 * 18))) 0"
  by (simp add: tick_handPoint_def getHandPoint_def rising_env_def still_env_def
      resting_hand_def hand_init_def default_data_def lerp_def v_add_def Let_def)

lemma rising_gesture: "drag_gesture 16 (rising_env t) scene_init resting_hand"
proof -
  define a where "a = 1 - exp (- tick_dt 16 * 18)"
  have a: "0.2 < a" "a < 1"
    using smoothFactor_16 by (simp_all add: a_def)
  have p: "tick_handPoint 16 (rising_env t) resting_hand = Vector3 (0.05 * a) (0.05 * a) 0"
    by (simp add: rising_handPoint a_def)
  have h: "hypot (0.05 * a) 0 = 0.05 * a"
    using a unfolding hypot_axis by (simp add: abs_mult)
  show ?thesis
    unfolding drag_gesture_def p Let_def
    using a h
    by (simp add: tick_rawDelta_def resting_hand_def hand_init_def default_data_def
        scene_init_def system_init_def v_sub_def)
qed

text \<open>
  C8, as stated, fails at the boundary of the throttle. The hand does the gesture (no
  snowball rolling or grabbed, finger tip near the ground, moving sideways and up) and
  exactly 350 ms have gone by since the last spawn, which is at least 350 ms: the
  tick spawns nothing. One millisecond later it does.
\<close>

theorem drag_spawn_counterexample:
  "rollingSnowball resting_hand = None \<and> grabbedSnowball resting_hand = None \<and>
   now (rising_env 350) - lastSpawnTime (snow scene_init) \<ge> 350 \<and>
   drag_gesture 16 (rising_env 350) scene_init resting_hand \<and>
   \<not> spawns (snd (snd (hand_tick 16 (rising_env 350) (Some scene_init) resting_hand))) \<and>
   spawns (snd (snd (hand_tick 16 (rising_env 351) (Some scene_init) resting_hand)))"
  using rising_gesture [of 350] rising_gesture [of 351]
  by (simp add: hand_tick_spawns)
     (simp add: resting_hand_def hand_init_def rising_env_def still_env_def scene_init_def
        system_init_def)

text \<open>
  C8, amended. A tick of the hand spawns a snowball exactly when the hand does the drag
  gesture (neither rolling nor grabbing, smoothed hand point no higher than
  \<open>handRadius + 0.05\<close> above the ground, horizontal displacement since the last tick above
  0.005 and vertical displacement above 0.006) and more than 350 ms have gone by since the
  shared last-spawn time. It spawns one snowball at most, at the hand point projected to
  0.03 above the ground, and never while no more than 350 ms have gone by.
\<close>

theorem drag_spawn_spec:
  "(spawns (snd (snd (hand_tick timeDelta env (Some sc) h))) \<longleftrightarrow>
      drag_gesture timeDelta env sc h \<and> now env - lastSpawnTime (snow sc) > 350) \<and>
   (AppendSnowball el p \<in> set (snd (snd (hand_tick timeDelta env (Some sc) h))) \<longrightarrow>
      el = next_entity sc \<and> p = drag_spawn_position timeDelta env sc h) \<and>
   (now env - lastSpawnTime (snow sc) \<le> 350 \<longrightarrow>
      \<not> spawns (snd (snd (hand_tick timeDelta env (Some sc) h))))"
  using hand_tick_spawn_where [of el p timeDelta env sc h]
  by (simp add: hand_tick_spawns)

theorem drag_spawn_spec_witness:
  "drag_gesture 16 (rising_env 351) scene_init resting_hand \<and>
   now (rising_env 351) - lastSpawnTime (snow scene_init) > 350 \<and>
   spawns (snd (snd (hand_tick 16 (rising_env 351) (Some scene_init) resting_hand))) \<and>
   AppendSnowball 0 (drag_spawn_position 16 (rising_env 351) scene_init resting_hand)
     \<in> set (snd (snd (hand_tick 16 (rising_env 351) (Some scene_init) resting_hand))) \<and>
   now (rising_env 200) - lastSpawnTime (snow scene_init) \<le> 350 \<and>
   \<not> spawns (snd (snd (hand_tick 16 (rising_env 200) (Some scene_init) resting_hand)))"
proof -
  let ?effs = "snd (snd (hand_tick 16 (rising_env 351) (Some scene_init) resting_hand))"
  have t: "now (rising_env 351) - lastSpawnTime (snow scene_init) > 350"
    "now (rising_env 200) - lastSpawnTime (snow scene_init) \<le> 350"
    "next_entity scene_init = 0"
    by (simp_all add: rising_env_def still_env_def scene_init_def system_init_def)
  from drag_spawn_spec [of 16 "rising_env 351" scene_init resting_hand] rising_gesture [of 351] t
  have a: "spawns ?effs"
    by simp
  then obtain el p where m: "AppendSnowball el p \<in> set ?effs"
    unfolding spawns_def by blast
  with drag_spawn_spec [of 16 "rising_env 351" scene_init resting_hand el p] t
  have "el = 0" "p = drag_spawn_position 16 (rising_env 351) scene_init resting_hand"
    by simp_all
  with m have c: "AppendSnowball 0 (drag_spawn_position 16 (rising_env 351) scene_init resting_hand)
                    \<in> set ?effs"
    by simp
  from drag_spawn_spec [of 16 "rising_env 200" scene_init resting_hand] t
  have b: "\<not> spawns (snd (snd (hand_tick 16 (rising_env 200) (Some scene_init) resting_hand)))"
    by simp
  from rising_gesture [of 351] t a b c show ?thesis by blast
qed

section \<open>The tick of a held snowball\<close>

lemma tick_pass_alone: "tick_pass dt ents el [el] s = s"
  by simp














section \<open>The radius only grows\<close>

lemma grown_refl: "grown s s"
  by (simp add: grown_def)

lemma grown_trans: "grown a b \<Longrightarrow> grown b c \<Longrightarrow> grown a c"
  by (simp add: grown_def)

lemma grown_growBy: "grown s (growBy distance s)"
  by (simp add: growBy_def grown_def Let_def)

lemma grown_tick_integrate: "grown s (tick_integrate dt ground s)"
  by (simp add: tick_integrate_def grown_def Let_def)

lemma grown_tick_resolve: "grown s (tick_resolve dt other s)"
  by (simp add: tick_resolve_def grown_def Let_def)

lemma grown_tick_pass: "grown s (tick_pass dt ents el xs s)"
proof (induction xs arbitrary: s)
  case Nil
  show ?case by (simp add: grown_refl)
next
  case (Cons x xs)
  have "grown s (if x = el then s else tick_resolve dt (ents x) s)"
    by (simp add: grown_refl grown_tick_resolve)
  from grown_trans [OF this Cons] show ?case by simp
qed

lemma scene_grown_refl: "scene_grown sc sc"
  by (simp add: scene_grown_def grown_refl)

lemma scene_grown_trans:
  assumes "scene_grown a b" and "scene_grown b c"
  shows "scene_grown a c"
  unfolding scene_grown_def
proof (intro conjI allI impI)
  show "next_entity a \<le> next_entity c"
    using assms by (simp add: scene_grown_def)
next
  fix el assume "el < next_entity a"
  with assms have "grown (entities a el) (entities b el)" "grown (entities b el) (entities c el)"
    by (simp_all add: scene_grown_def)
  then show "grown (entities a el) (entities c el)"
    by (rule grown_trans)
next
  fix el assume el: "next_entity a \<le> el \<and> el < next_entity c"
  show "baseRadius (entities c el) \<le> radius (entities c el)"
  proof (cases "el < next_entity b")
    case True
    with el assms have "baseRadius (entities b el) \<le> radius (entities b el)"
      and "grown (entities b el) (entities c el)"
      by (simp_all add: scene_grown_def)
    then show ?thesis by (simp add: grown_def)
  next
    case False
    with el assms show ?thesis by (simp add: scene_grown_def)
  qed
qed

lemma scene_grown_update:
  assumes "grown (entities sc el) s'"
  shows "scene_grown sc (sc\<lparr>entities := (entities sc)(el := s')\<rparr>)"
  using assms by (simp add: scene_grown_def grown_refl)

lemma scene_grown_snow: "scene_grown sc (sc\<lparr>snow := sys\<rparr>)"
  by (simp add: scene_grown_def grown_refl)

lemma scene_grown_create: "scene_grown sc (createSnowballEntity pos sc)"
  by (simp add: scene_grown_def createSnowballEntity_def Let_def grown_refl snowball_init_def)

lemma scene_grown_snowball_tick: "scene_grown sc (snowball_tick timeDelta el sc)"
proof -
  have "grown (entities sc el)
          (tick_pass dt (entities sc) el xs
             (tick_pass dt (entities sc) el xs (tick_integrate dt ground (entities sc el))))"
    for dt xs ground
    by (rule grown_trans [OF grown_tick_integrate grown_trans [OF grown_tick_pass grown_tick_pass]])
  then show ?thesis
    by (simp add: snowball_tick_def Let_def scene_grown_refl scene_grown_update)
qed

lemma scene_grown_onGrabStart:
  "scene_grown sc (case fst (snd (onGrabStart env (Some sc) h)) of Some sc' \<Rightarrow> sc' | None \<Rightarrow> sc)"
  by (simp add: onGrabStart_def Let_def scene_grown_refl scene_grown_update grown_def
      split: option.splits)

lemma scene_grown_onGrabEnd:
  "scene_grown sc (case fst (snd (onGrabEnd env (Some sc) h)) of Some sc' \<Rightarrow> sc' | None \<Rightarrow> sc)"
  by (simp add: onGrabEnd_def Let_def scene_grown_refl scene_grown_update grown_def
      release_rest_fields split: option.splits)

lemma scene_grown_tick_spawn: "scene_grown sc (fst (tick_spawn env handPoint h sc))"
proof -
  have "scene_grown sc ((createSnowballEntity pos sc)\<lparr>snow := sys\<rparr>)" for pos sys
    by (rule scene_grown_trans [OF scene_grown_create scene_grown_snow])
  then show ?thesis
    by (simp add: tick_spawn_def Let_def scene_grown_refl)
qed

lemma scene_grown_tick_contact:
  "scene_grown sc (fst (snd (fst (tick_contact env handPoint rolling lastPos dh h sc))))"
proof -
  have m: "grown (entities sc rolling) (applyImpulse impulse ((entities sc rolling)\<lparr>position := p\<rparr>))"
    for impulse p
    by (simp add: grown_def applyImpulse_def)
  have g: "grown (entities sc rolling)
             (growBy d (applyImpulse impulse ((entities sc rolling)\<lparr>position := p\<rparr>)))"
    for impulse p d
    by (rule grown_trans [OF m grown_growBy])
  have r: "scene_grown sc (entity_remove rolling sc)"
    by (simp add: entity_remove_def scene_grown_snow)
  show ?thesis
    by (simp add: tick_contact_def Let_def r scene_grown_update m g)
qed

lemma scene_grown_tick_roll:
  "scene_grown sc (fst (snd (fst (tick_roll env handPoint h sc))))"
proof -
  have z: "grown (entities sc rolling) ((entities sc rolling)\<lparr>velocity := v_zero\<rparr>)" for rolling
    by (simp add: grown_def)
  show ?thesis
    by (simp add: tick_roll_def Let_def scene_grown_refl scene_grown_update z
        scene_grown_tick_contact split: option.splits)
qed

lemma scene_grown_hand_tick:
  "scene_grown sc (case fst (snd (hand_tick timeDelta env (Some sc) h)) of
                     Some sc' \<Rightarrow> sc' | None \<Rightarrow> sc)"
proof -
  have "scene_grown sc (fst (snd (fst (tick_roll env p h2 (fst (tick_spawn env p h1 sc))))))"
    for p h1 h2
    by (rule scene_grown_trans [OF scene_grown_tick_spawn scene_grown_tick_roll])
  then show ?thesis
    by (simp add: hand_tick_def Let_def)
qed

lemma scene_grown_spawnSeed:
  "scene_grown sc (case fst (spawnSeed spawnOffset env (Some sc)) of
                     Some sc' \<Rightarrow> sc' | None \<Rightarrow> sc)"
proof -
  have "scene_grown sc ((createSnowballEntity pos sc)\<lparr>snow := sys\<rparr>)" for pos sys
    by (rule scene_grown_trans [OF scene_grown_create scene_grown_snow])
  then show ?thesis
    by (simp add: spawnSeed_def Let_def)
qed

lemma scene_grown_step: "scene_grown (w_scene w) (w_scene (step ev w))"
proof (cases ev)
  case (SnowballTick timeDelta el)
  then show ?thesis by (simp add: scene_grown_refl scene_grown_snowball_tick)
next
  case (HandTick i timeDelta env)
  then show ?thesis by (simp add: hand_result_def scene_grown_hand_tick)
next
  case (GrabStart i env)
  then show ?thesis by (simp add: hand_result_def scene_grown_onGrabStart)
next
  case (GrabEnd i env)
  then show ?thesis by (simp add: hand_result_def scene_grown_onGrabEnd)
next
  case (SpawnSeed spawnOffset env)
  with scene_grown_spawnSeed [of "w_scene w" spawnOffset env] show ?thesis
    by (simp add: scene_grown_refl split: option.splits)
next
  case (SetArMode ar)
  then show ?thesis by (simp add: scene_grown_snow)
qed

lemma scene_grown_run: "scene_grown (w_scene w) (w_scene (run evs w))"
  unfolding run_def
proof (induction evs arbitrary: w)
  case Nil
  show ?case by (simp add: scene_grown_refl)
next
  case (Cons ev evs)
  from scene_grown_trans [OF scene_grown_step Cons [of "step ev w"]]
  show ?case by simp
qed

lemma radius_ok_grown:
  assumes "radius_ok sc" and "scene_grown sc sc'"
  shows "radius_ok sc'"
  unfolding radius_ok_def
proof (intro allI impI)
  fix el assume el: "el < next_entity sc'"
  show "baseRadius (entities sc' el) \<le> radius (entities sc' el)"
  proof (cases "el < next_entity sc")
    case True
    with assms have "baseRadius (entities sc el) \<le> radius (entities sc el)"
      and "grown (entities sc el) (entities sc' el)"
      by (simp_all add: radius_ok_def scene_grown_def)
    then show ?thesis by (simp add: grown_def)
  next
    case False
    with el assms(2) show ?thesis by (simp add: scene_grown_def)
  qed
qed

text \<open>
  C2. In every state the program reaches, every snowball entity has
  \<open>radius \<ge> baseRadius\<close>. From any state on, whatever events follow, the \<open>baseRadius\<close>
  of an existing snowball stays the same and its \<open>radius\<close> never gets smaller. Init sets
  both to the same value, and \<open>growBy\<close> keeps \<open>baseRadius\<close> and never lowers \<open>radius\<close>.
\<close>

theorem radius_never_shrinks:
  "(el < next_entity (w_scene (run evs (world_init cfg))) \<longrightarrow>
      baseRadius (entities (w_scene (run evs (world_init cfg))) el)
        \<le> radius (entities (w_scene (run evs (world_init cfg))) el)) \<and>
   (el < next_entity (w_scene w) \<longrightarrow>
      baseRadius (entities (w_scene (run evs w)) el) = baseRadius (entities (w_scene w) el) \<and>
      radius (entities (w_scene w) el) \<le> radius (entities (w_scene (run evs w)) el)) \<and>
   radius (snowball_init pos r) = baseRadius (snowball_init pos r) \<and>
   baseRadius (growBy distance s) = baseRadius s \<and>
   radius s \<le> radius (growBy distance s)"
proof -
  have "radius_ok (w_scene (world_init cfg))"
    by (simp add: radius_ok_def world_init_def scene_init_def)
  then have "radius_ok (w_scene (run evs (world_init cfg)))"
    using scene_grown_run by (rule radius_ok_grown)
  moreover have "scene_grown (w_scene w) (w_scene (run evs w))"
    by (rule scene_grown_run)
  moreover have "grown s (growBy distance s)"
    by (rule grown_growBy)
  ultimately show ?thesis
    by (simp add: radius_ok_def scene_grown_def grown_def snowball_init_def)
qed

lemma seeded_world:
  "w_scene (run [SpawnSeed 0.2 still_env] (world_init cfg))
     = \<lparr>snow = system_init\<lparr>snowballs := [0], lastSpawnTime := 1000\<rparr>,
        entities = (\<lambda>_. snowball_init v_zero 0.03)(0 := snowball_init (Vector3 0 0.2 0) 0.03),
        next_entity = 1\<rparr>"
  by (simp add: run_def spawnSeed_def world_init_def scene_init_def createSnowballEntity_def
      registerSnowball_def system_init_def still_env_def Let_def)

theorem radius_never_shrinks_witness:
  "(0 :: entity) < next_entity (w_scene (run [SpawnSeed 0.2 still_env]
                                     (world_init (\<lambda>_. default_data)))) \<and>
   baseRadius (entities (w_scene (run [SpawnSeed 0.2 still_env]
                                    (world_init (\<lambda>_. default_data)))) 0)
     \<le> radius (entities (w_scene (run [SpawnSeed 0.2 still_env]
                                      (world_init (\<lambda>_. default_data)))) 0) \<and>
   baseRadius (entities (w_scene (run [SnowballTick 16 0, SpawnSeed 0.2 still_env]
       (run [SpawnSeed 0.2 still_env] (world_init (\<lambda>_. default_data))))) 0) = 0.03 \<and>
   0.03 \<le> radius (entities (w_scene (run [SnowballTick 16 0, SpawnSeed 0.2 still_env]
       (run [SpawnSeed 0.2 still_env] (world_init (\<lambda>_. default_data))))) 0)"
proof -
  let ?w = "run [SpawnSeed 0.2 still_env] (world_init (\<lambda>_. default_data))"
  have n: "(0 :: entity) < next_entity (w_scene ?w)"
    and r: "radius (entities (w_scene ?w) 0) = 0.03" "baseRadius (entities (w_scene ?w) 0) = 0.03"
    by (simp_all add: seeded_world [simplified] snowball_init_def)
  note t1 = radius_never_shrinks [where el = 0 and evs = "[SpawnSeed 0.2 still_env]"
      and cfg = "\<lambda>_. default_data" and w = ?w and pos = v_zero and r = 0 and distance = 0
      and s = "snowball_init v_zero 0"]
  note t2 = radius_never_shrinks [where el = 0 and w = ?w
      and evs = "[SnowballTick 16 0, SpawnSeed 0.2 still_env]"
      and cfg = "\<lambda>_. default_data" and pos = v_zero and r = 0 and distance = 0
      and s = "snowball_init v_zero 0"]
  from t1 n
  have a: "baseRadius (entities (w_scene ?w) 0) \<le> radius (entities (w_scene ?w) 0)"
    by blast
  from t2 n
  have "baseRadius (entities (w_scene (run [SnowballTick 16 0, SpawnSeed 0.2 still_env] ?w)) 0)
             = baseRadius (entities (w_scene ?w) 0)"
    and "radius (entities (w_scene ?w) 0)
           \<le> radius (entities (w_scene (run [SnowballTick 16 0, SpawnSeed 0.2 still_env] ?w)) 0)"
    by blast+
  then
  have b: "baseRadius (entities (w_scene (run [SnowballTick 16 0, SpawnSeed 0.2 still_env] ?w)) 0)
             = 0.03"
    "0.03 \<le> radius (entities (w_scene (run [SnowballTick 16 0, SpawnSeed 0.2 still_env] ?w)) 0)"
    unfolding r by simp_all
  from n a b show ?thesis by blast
qed

end
